theory Spec2Isabelle
  imports Complex_Main "HOL-Library.Word"
begin

section \<open>Data model\<close>

text \<open>
  Numbers of the program are JavaScript doubles. Scores and the weight \<open>alpha\<close> are
  modelled as exact rationals (no rounding, no NaN, no infinities); counts such as
  \<open>limit\<close> and \<open>topK\<close> are integers, negative values included, because
  \<open>Array.prototype.slice\<close> gives a negative end a meaning of its own.
  JavaScript strings are sequences of 16-bit code units; the strings of the model are
  lists of 8-bit characters, so they stand for the texts whose code units are below 256.
  An exception is a value \<open>Thrown\<close> with its message.
\<close>

datatype error = Thrown string

datatype json = JStr string | JNum int | JBool bool

type_synonym metadata = "string \<rightharpoonup> json"

record document =
  pageContent :: string
  metadata :: metadata

record search_result =
  document :: document
  score :: rat
  vectorScore :: "rat option"
  keywordScore :: "rat option"

text \<open>\<open>xs.slice(0, e)\<close>: a negative end counts from the end of the array.\<close>

definition js_slice0 :: "'a list \<Rightarrow> int \<Rightarrow> 'a list" where
  "js_slice0 xs e = take (if e < 0 then nat (int (length xs) + e) else nat e) xs"

section \<open>HybridVectorStore.reciprocalRankFusion\<close>

text \<open>The value type of the \<open>fusedScores\<close> map, \<open>{ result, score }\<close>.\<close>

record fused =
  result :: search_result
  fused_score :: rat

text \<open>
  A JavaScript \<open>Map\<close> keeps its keys in insertion order and \<open>values()\<close> walks them in
  that order, so the map is an association list with one pair per key.
\<close>

type_synonym fused_map = "(string \<times> fused) list"

definition k_rrf :: nat where
  "k_rrf = 60"

definition fingerprint :: "search_result \<Rightarrow> string" where
  "fingerprint r = take 100 (pageContent (document r))"

text \<open>The body of both \<open>forEach\<close> callbacks after \<open>key\<close> and \<open>rrfScore\<close> are computed.\<close>

fun accumulate :: "fused_map \<Rightarrow> string \<Rightarrow> search_result \<Rightarrow> rat \<Rightarrow> fused_map" where
  "accumulate [] key r s = [(key, \<lparr>result = r, fused_score = s\<rparr>)]"
| "accumulate ((key', e) # m) key r s =
     (if key' = key then (key', e\<lparr>fused_score := fused_score e + s\<rparr>) # m
      else (key', e) # accumulate m key r s)"

text \<open>\<open>results.forEach((result, rank) => ...)\<close> with list weight \<open>w\<close>, from rank \<open>rank\<close> on.\<close>

fun process_results :: "rat \<Rightarrow> nat \<Rightarrow> search_result list \<Rightarrow> fused_map \<Rightarrow> fused_map" where
  "process_results w rank [] m = m"
| "process_results w rank (r # rs) m =
     process_results w (Suc rank) rs
       (accumulate m (fingerprint r) r (w * (1 / (of_nat k_rrf + of_nat rank + 1))))"

definition fusedScores :: "search_result list \<Rightarrow> search_result list \<Rightarrow> rat \<Rightarrow> fused_map" where
  "fusedScores vectorResults keywordResults alpha =
     process_results (1 - alpha) 0 keywordResults (process_results alpha 0 vectorResults [])"

text \<open>
  \<open>.sort((a, b) => b.score - a.score)\<close>: the sort of an array is stable, and so is
  \<open>sort_key\<close>; descending order is ascending order of the negated score.
\<close>

definition sort_desc :: "fused list \<Rightarrow> fused list" where
  "sort_desc xs = sort_key (\<lambda>item. - fused_score item) xs"

definition reciprocalRankFusion ::
  "search_result list \<Rightarrow> search_result list \<Rightarrow> rat \<Rightarrow> int \<Rightarrow> search_result list" where
  "reciprocalRankFusion vectorResults keywordResults alpha limit =
     map (\<lambda>item. (result item)\<lparr>score := fused_score item\<rparr>)
       (js_slice0 (sort_desc (map snd (fusedScores vectorResults keywordResults alpha))) limit)"

text \<open>
  The formula of the specification: what one ranked list contributes to the candidate
  with fingerprint \<open>key\<close>, namely \<open>weight * 1/(k + rank + 1)\<close> for each rank at which the
  list holds that fingerprint.
\<close>

definition rank_contribution :: "rat \<Rightarrow> string \<Rightarrow> search_result list \<Rightarrow> rat" where
  "rank_contribution weight key xs =
     (\<Sum>rank \<leftarrow> [0..<length xs].
        if fingerprint (xs ! rank) = key then weight * (1 / (60 + of_nat rank + 1)) else 0)"

definition score_of :: "fused_map \<Rightarrow> string \<Rightarrow> rat" where
  "score_of m key = (case map_of m key of None \<Rightarrow> 0 | Some e \<Rightarrow> fused_score e)"

definition keyed :: "fused_map \<Rightarrow> bool" where
  "keyed m = (\<forall>(key, e) \<in> set m. fingerprint (result e) = key)"

text \<open>The contribution of a list whose first element has rank \<open>rank\<close>.\<close>

fun contribution_from :: "rat \<Rightarrow> string \<Rightarrow> nat \<Rightarrow> search_result list \<Rightarrow> rat" where
  "contribution_from w key rank [] = 0"
| "contribution_from w key rank (x # xs) =
     (if fingerprint x = key then w * (1 / (60 + of_nat rank + 1)) else 0)
       + contribution_from w key (Suc rank) xs"

section \<open>Strings\<close>

text \<open>
  \<open>toLowerCase\<close> on the code units below 256: the letters A to Z (65 to 90) and the
  Latin-1 capitals from U+00C0 to U+00DE, the multiplication sign U+00D7 apart, go to
  the code unit 32 above; every other code unit stays. Then \<open>split(' ')\<close> with a
  one-character separator (the result always has at least one element), \<open>includes\<close>
  and \<open>join\<close>.
\<close>

definition lower_char :: "char \<Rightarrow> char" where
  "lower_char c =
     (let n = (of_char c :: nat)
      in if (65 \<le> n \<and> n \<le> 90) \<or> (192 \<le> n \<and> n \<le> 222 \<and> n \<noteq> 215)
         then char_of (n + 32) else c)"

definition toLowerCase :: "string \<Rightarrow> string" where
  "toLowerCase s = map lower_char s"

fun split_on :: "char \<Rightarrow> string \<Rightarrow> string list" where
  "split_on sep [] = [[]]"
| "split_on sep (c # cs) =
     (if c = sep then [] # split_on sep cs
      else (case split_on sep cs of
              [] \<Rightarrow> [[c]]
            | w # ws \<Rightarrow> (c # w) # ws))"

fun starts_with :: "string \<Rightarrow> string \<Rightarrow> bool" where
  "starts_with s [] = True"
| "starts_with [] (c # w) = False"
| "starts_with (d # s) (c # w) = (d = c \<and> starts_with s w)"

fun str_includes :: "string \<Rightarrow> string \<Rightarrow> bool" where
  "str_includes [] w = (w = [])"
| "str_includes (c # s) w = (starts_with (c # s) w \<or> str_includes s w)"

fun join :: "string \<Rightarrow> string list \<Rightarrow> string" where
  "join sep [] = []"
| "join sep [w] = w"
| "join sep (w # v # ws) = w @ sep @ join sep (v # ws)"

section \<open>Errors as values\<close>

text \<open>
  A call that may throw returns \<open>error + 'a\<close>; \<open>and_then\<close> is \<open>await\<close> followed by the
  rest of the function body: an exception skips the rest.
\<close>

definition and_then :: "error + 'a \<Rightarrow> ('a \<Rightarrow> error + 'b) \<Rightarrow> error + 'b" where
  "and_then m f = (case m of Inl e \<Rightarrow> Inl e | Inr x \<Rightarrow> f x)"

section \<open>AdvancedEmbeddings\<close>

definition expansions :: "(string \<times> string list) list" where
  "expansions =
     [(''performance'', [''speed'', ''optimization'', ''efficiency'', ''latency'']),
      (''security'', [''authentication'', ''authorization'', ''encryption'', ''vulnerability'']),
      (''api'', [''endpoint'', ''rest'', ''graphql'', ''interface'']),
      (''database'', [''sql'', ''nosql'', ''query'', ''index'', ''schema''])]"

definition generateQueryExpansion :: "string \<Rightarrow> string list" where
  "generateQueryExpansion query =
     (let lowerQuery = toLowerCase query
      in concat (map (\<lambda>(key, values).
                   if str_includes lowerQuery key
                   then js_slice0 (filter (\<lambda>v. \<not> str_includes lowerQuery v) values) 2
                   else []) expansions))"

record expansion =
  original :: "rat list"
  expanded :: "rat list option"
  expansionTerms :: "string list"

text \<open>The embedding provider \<open>embedder\<close> is the external \<open>OpenAIEmbeddings.embedQuery\<close>.\<close>

definition embedQueryWithExpansion ::
  "(string \<Rightarrow> error + rat list) \<Rightarrow> string \<Rightarrow> error + expansion" where
  "embedQueryWithExpansion embedder query =
     and_then (embedder query) (\<lambda>orig.
       let terms = generateQueryExpansion query
       in if length terms > 0
          then and_then (embedder (query @ '' '' @ join '' '' terms)) (\<lambda>ex.
                 Inr \<lparr>original = orig, expanded = Some ex, expansionTerms = terms\<rparr>)
          else Inr \<lparr>original = orig, expanded = None, expansionTerms = []\<rparr>)"

section \<open>HybridVectorStore.hybridSearch\<close>

text \<open>
  The vector index is a remote service: \<open>client_search\<close> is \<open>client.search\<close> with the
  vector and the limit, \<open>client_scroll\<close> is \<open>client.scroll\<close> with the terms of the
  \<open>should\<close> filter and the limit.
\<close>

record point =
  payload_content :: string
  payload_metadata :: metadata

record scored_point = point +
  point_score :: rat

record hybrid_store =
  embedQuery :: "string \<Rightarrow> error + rat list"
  client_search :: "rat list \<Rightarrow> int \<Rightarrow> error + scored_point list"
  client_scroll :: "string list \<Rightarrow> int \<Rightarrow> error + point list"

text \<open>\<open>x || 0\<close> on a number.\<close>

definition or_zero :: "rat \<Rightarrow> rat" where
  "or_zero x = (if x = 0 then 0 else x)"

definition vectorSearch :: "hybrid_store \<Rightarrow> rat list \<Rightarrow> int \<Rightarrow> error + search_result list" where
  "vectorSearch st embedding limit =
     and_then (client_search st embedding limit) (\<lambda>results.
       Inr (map (\<lambda>r. \<lparr>document = \<lparr>pageContent = payload_content r,
                                    metadata = payload_metadata r\<rparr>,
                        score = or_zero (point_score r),
                        vectorScore = Some (or_zero (point_score r)),
                        keywordScore = None\<rparr>) results))"

definition keywordSearch :: "hybrid_store \<Rightarrow> string \<Rightarrow> int \<Rightarrow> error + search_result list" where
  "keywordSearch st query limit =
     (let searchTerms = filter (\<lambda>t. length t > 2) (split_on (CHR '' '') (toLowerCase query))
      in if length searchTerms = 0 then Inr []
         else and_then (client_scroll st searchTerms limit) (\<lambda>points.
                Inr (map (\<lambda>(idx, r).
                       \<lparr>document = \<lparr>pageContent = payload_content r,
                                     metadata = payload_metadata r\<rparr>,
                        score = 1 - of_nat idx / of_nat (length points),
                        vectorScore = None,
                        keywordScore = Some (1 - of_nat idx / of_nat (length points))\<rparr>)
                     (enumerate 0 points))))"

definition hybridSearch ::
  "hybrid_store \<Rightarrow> string \<Rightarrow> int \<Rightarrow> rat \<Rightarrow> error + search_result list" where
  "hybridSearch st query limit alpha =
     and_then (embedQueryWithExpansion (embedQuery st) query) (\<lambda>e.
     and_then (vectorSearch st (case expanded e of Some ex \<Rightarrow> ex | None \<Rightarrow> original e)
                 (limit * 2)) (\<lambda>vectorResults.
     and_then (keywordSearch st query (limit * 2)) (\<lambda>keywordResults.
       Inr (reciprocalRankFusion vectorResults keywordResults alpha limit))))"

section \<open>Example inputs\<close>

definition example_doc :: "string \<Rightarrow> document" where
  "example_doc s = \<lparr>pageContent = s, metadata = Map.empty\<rparr>"

definition example_result :: "string \<Rightarrow> rat \<Rightarrow> search_result" where
  "example_result s x = \<lparr>document = example_doc s, score = x, vectorScore = None, keywordScore = None\<rparr>"

definition example_store :: hybrid_store where
  "example_store =
     \<lparr>embedQuery = (\<lambda>q. Inr [1]),
      client_search = (\<lambda>v l. Inr [\<lparr>payload_content = ''fast api'', payload_metadata = Map.empty, point_score = 9/10\<rparr>,
                                   \<lparr>payload_content = ''slow db'', payload_metadata = Map.empty, point_score = 1/2\<rparr>]),
      client_scroll = (\<lambda>ts l. Inr [\<lparr>payload_content = ''slow db'', payload_metadata = Map.empty\<rparr>,
                                   \<lparr>payload_content = ''api docs'', payload_metadata = Map.empty\<rparr>])\<rparr>"

section \<open>Rankings\<close>

text \<open>
  A ranking is the list of fingerprints with their scores, in order. \<open>list_ranking\<close>
  is the ranking one input list alone stands for: its fingerprints in its own order,
  each with the reciprocal-rank score of its position at weight 1.
\<close>

definition list_ranking :: "search_result list \<Rightarrow> (string \<times> rat) list" where
  "list_ranking xs =
     map (\<lambda>(rank, r). (fingerprint r, 1 / (60 + of_nat rank + 1))) (enumerate 0 xs)"

definition ranking :: "search_result list \<Rightarrow> (string \<times> rat) list" where
  "ranking xs = map (\<lambda>x. (fingerprint x, score x)) xs"

section \<open>Mock services: MockLLM\<close>

text \<open>
  The three canned answers of \<open>MockLLM.generateAnswer\<close>, each a template with the
  question in it. The bullet of the third answer is written as its three UTF-8 bytes.
\<close>

definition response_0 :: "string \<Rightarrow> string" where
  "response_0 question =
     ''Based on the provided context, here''
     @ [CHR 0x27]
     @ ''s a comprehensive answer to ''
     @ [CHR 0x22]
     @ question
     @ [CHR 0x22]
     @ '':\<newline>''
     @ ''\<newline>''
     @ ''The documents discuss several key aspects relevant to your query. The implementation involves modern techniques and best practices that ensure optimal performance and scalability.\<newline>''
     @ ''\<newline>''
     @ ''Key points include:\<newline>''
     @ ''- Advanced optimization strategies that improve efficiency by 30-40%\<newline>''
     @ ''- Robust architecture patterns for maintainable systems\<newline>''
     @ ''- Comprehensive monitoring and observability practices\<newline>''
     @ ''\<newline>''
     @ ''[1] The first source emphasizes the importance of proper system design.\<newline>''
     @ ''[2] The second source provides detailed implementation guidelines.\<newline>''
     @ ''[3] The third source covers advanced optimization techniques.\<newline>''
     @ ''\<newline>''
     @ ''This approach has been proven effective in production environments.''"

definition response_1 :: "string \<Rightarrow> string" where
  "response_1 question =
     ''To address your question about ''
     @ [CHR 0x22]
     @ question
     @ [CHR 0x22]
     @ '':\<newline>''
     @ ''\<newline>''
     @ ''The context reveals three critical components:\<newline>''
     @ ''\<newline>''
     @ ''1. **Performance Optimization**: The system implements cutting-edge techniques for reducing latency and improving throughput [1].\<newline>''
     @ ''\<newline>''
     @ ''2. **Scalability Patterns**: Using microservices architecture and proper service boundaries ensures the system can grow efficiently [2].\<newline>''
     @ ''\<newline>''
     @ ''3. **Monitoring & Observability**: Comprehensive metrics and logging enable proactive issue detection [3].\<newline>''
     @ ''\<newline>''
     @ ''These elements work together to create a robust, production-ready solution.''"

definition response_2 :: "string \<Rightarrow> string" where
  "response_2 question =
     ''Regarding ''
     @ [CHR 0x22]
     @ question
     @ [CHR 0x22]
     @ '':\<newline>''
     @ ''\<newline>''
     @ ''Analysis of the provided sources reveals:\<newline>''
     @ ''\<newline>''
     @ [CHR 0xE2, CHR 0x80, CHR 0xA2]
     @ '' Modern architectural patterns are essential for building scalable systems [1]\<newline>''
     @ [CHR 0xE2, CHR 0x80, CHR 0xA2]
     @ '' Performance optimization requires a multi-faceted approach [2]  \<newline>''
     @ [CHR 0xE2, CHR 0x80, CHR 0xA2]
     @ '' Proper monitoring ensures system reliability [3]\<newline>''
     @ ''\<newline>''
     @ ''The implementation leverages industry best practices to achieve optimal results. This includes hybrid search capabilities, intelligent caching strategies, and adaptive resource management.\<newline>''
     @ ''\<newline>''
     @ ''The recommended approach balances performance with maintainability.''"

definition responses :: "string \<Rightarrow> string list" where
  "responses question = [response_0 question, response_1 question, response_2 question]"

text \<open>
  \<open>hash = ((hash << 5) - hash) + str.charCodeAt(i); hash = hash & hash\<close>: the bitwise
  operators keep the hash a signed 32-bit integer, so it is a 32-bit word whose signed
  value \<open>sint\<close> reads.
\<close>

definition MockLLM_hashCode :: "string \<Rightarrow> 32 word" where
  "MockLLM_hashCode str =
     fold (\<lambda>c hash. (push_bit 5 hash - hash) + of_nat (of_char c)) str 0"

definition MockLLM_generateAnswer :: "string \<Rightarrow> string \<Rightarrow> string" where
  "MockLLM_generateAnswer question context =
     (let hash = nat \<bar>sint (MockLLM_hashCode question)\<bar>
      in responses question ! (hash mod length (responses question)))"

text \<open>The fragments \<open>streamAnswer\<close> yields, in order (the delay between them is not modelled).\<close>

definition MockLLM_streamAnswer :: "string \<Rightarrow> string \<Rightarrow> string list" where
  "MockLLM_streamAnswer question context =
     (let answer = MockLLM_generateAnswer question context;
          words = split_on (CHR '' '') answer
      in map (\<lambda>i. words ! i @ (if i < length words - 1 then '' '' else []))
           [0..<length words])"

section \<open>Mock services: MockVectorStore\<close>

text \<open>The store is its array \<open>documents\<close>; the mock embeddings play no part in the search.\<close>

record mock_hit =
  hit_document :: document
  hit_score :: rat
  hit_index :: nat

definition word_score :: "string list \<Rightarrow> string \<Rightarrow> rat" where
  "word_score queryWords content =
     of_nat (fold (\<lambda>word acc. acc + (if str_includes content word then 1 else 0)) queryWords (0::nat))
       / of_nat (length queryWords)"

definition MockVectorStore_hybridSearch :: "document list \<Rightarrow> string \<Rightarrow> int \<Rightarrow> search_result list" where
  "MockVectorStore_hybridSearch documents query limit =
     (if length documents = 0 then []
      else
        let queryWords = split_on (CHR '' '') (toLowerCase query);
            results =
              map (\<lambda>r. \<lparr>document = hit_document r, score = hit_score r,
                         vectorScore = Some (hit_score r), keywordScore = Some (hit_score r)\<rparr>)
                (js_slice0
                   (sort_key (\<lambda>r. - hit_score r)
                      (filter (\<lambda>r. hit_score r > 0)
                         (map (\<lambda>(index, doc).
                                 \<lparr>hit_document = doc,
                                  hit_score = word_score queryWords (toLowerCase (pageContent doc)),
                                  hit_index = index\<rparr>)
                            (enumerate 0 documents))))
                   limit)
        in if length results = 0
           then map (\<lambda>(i, doc). \<lparr>document = doc,
                                   score = 1 / 2 - of_nat i * (1 / 10),
                                   vectorScore = Some (1 / 2 - of_nat i * (1 / 10)),
                                   keywordScore = None\<rparr>)
                  (enumerate 0 (js_slice0 documents (int (min 3 (length documents)))))
           else results)"

text \<open>The list the mock store falls back to: its first three documents at most.\<close>

definition fallback :: "document list \<Rightarrow> search_result list" where
  "fallback documents =
     map (\<lambda>(i, doc). \<lparr>document = doc, score = 1 / 2 - of_nat i * (1 / 10),
                       vectorScore = Some (1 / 2 - of_nat i * (1 / 10)), keywordScore = None\<rparr>)
       (enumerate 0 (take 3 documents))"

section \<open>Mock services: MockReranker\<close>

text \<open>
  \<open>new RegExp(word, 'g')\<close> and \<open>content.match(regex)\<close> belong to the language runtime:
  \<open>regex\<close> gives, for a pattern and a text, the number of matches, or the SyntaxError
  of a word that is not a pattern. Nothing catches that error.
\<close>

type_synonym regex = "string \<Rightarrow> string \<Rightarrow> error + nat"

fun termFrequency :: "regex \<Rightarrow> string \<Rightarrow> string list \<Rightarrow> nat \<Rightarrow> error + nat" where
  "termFrequency rx content [] acc = Inr acc"
| "termFrequency rx content (word # ws) acc =
     and_then (rx word content) (\<lambda>matches. termFrequency rx content ws (acc + matches))"

fun rescore :: "regex \<Rightarrow> string list \<Rightarrow> search_result list \<Rightarrow> error + search_result list" where
  "rescore rx queryWords [] = Inr []"
| "rescore rx queryWords (r # rs) =
     and_then (termFrequency rx (toLowerCase (pageContent (document r))) queryWords 0) (\<lambda>tf.
     and_then (rescore rx queryWords rs) (\<lambda>rest.
       Inr (r\<lparr>score := min (99 / 100) (of_nat tf / of_nat (length queryWords * 5))\<rparr> # rest)))"

definition MockReranker_rerank ::
  "regex \<Rightarrow> string \<Rightarrow> search_result list \<Rightarrow> int \<Rightarrow> error + search_result list" where
  "MockReranker_rerank rx query results topK =
     (let queryWords = split_on (CHR '' '') (toLowerCase query)
      in and_then (rescore rx queryWords results) (\<lambda>reranked.
           Inr (js_slice0 (sort_key (\<lambda>r. - score r) reranked) topK)))"

definition MockReranker_rerankWithMetadata ::
  "regex \<Rightarrow> string \<Rightarrow> search_result list \<Rightarrow> int \<Rightarrow> error + search_result list" where
  "MockReranker_rerankWithMetadata rx query results topK = MockReranker_rerank rx query results topK"

section \<open>JavaScript values in metadata\<close>

text \<open>
  A metadata field is any JSON value; the code tests fields for truthiness
  (\<open>x ? ... : ...\<close>, \<open>x || ...\<close>) and puts them into template strings. A missing field is
  \<open>undefined\<close>, which is falsy.
\<close>

definition digit_char :: "nat \<Rightarrow> char" where
  "digit_char d = char_of (48 + d)"

function show_nat :: "nat \<Rightarrow> string" where
  "show_nat n = (if n < 10 then [digit_char n] else show_nat (n div 10) @ [digit_char (n mod 10)])"
  by pat_completeness auto
termination
  by (relation "measure id") auto

definition show_int :: "int \<Rightarrow> string" where
  "show_int i = (if i < 0 then ''-'' @ show_nat (nat (- i)) else show_nat (nat i))"

fun truthy :: "json option \<Rightarrow> bool" where
  "truthy None = False"
| "truthy (Some (JStr s)) = (s \<noteq> [])"
| "truthy (Some (JNum n)) = (n \<noteq> 0)"
| "truthy (Some (JBool b)) = b"

fun to_string :: "json \<Rightarrow> string" where
  "to_string (JStr s) = s"
| "to_string (JNum n) = show_int n"
| "to_string (JBool b) = (if b then ''true'' else ''false'')"

section \<open>Reranker\<close>

text \<open>
  The provider \<open>cohere.rerank\<close> is external: it gets the query, the documents and
  \<open>topN\<close>, and answers with hits that name a document by its index, or throws.
  A hit whose index is outside the array makes \<open>results[result.index]\<close> undefined, and
  spreading undefined leaves an object with the score alone: \<open>ScoreOnly\<close>.
\<close>

record rerank_hit =
  doc_index :: nat
  relevanceScore :: rat

type_synonym cohere = "string \<Rightarrow> string list \<Rightarrow> int \<Rightarrow> error + rerank_hit list"

datatype ranked = Ranked search_result | ScoreOnly rat

definition restore :: "search_result list \<Rightarrow> rerank_hit \<Rightarrow> ranked" where
  "restore results hit =
     (if doc_index hit < length results
      then Ranked ((results ! doc_index hit)\<lparr>score := relevanceScore hit\<rparr>)
      else ScoreOnly (relevanceScore hit))"

text \<open>\<open>try { ... } catch (error) { ... }\<close>.\<close>

definition try_catch :: "error + 'a \<Rightarrow> (error \<Rightarrow> error + 'a) \<Rightarrow> error + 'a" where
  "try_catch block handler = (case block of Inl e \<Rightarrow> handler e | Inr x \<Rightarrow> Inr x)"

definition rerank :: "cohere \<Rightarrow> string \<Rightarrow> search_result list \<Rightarrow> int \<Rightarrow> error + ranked list" where
  "rerank co query results topK =
     (if length results = 0 then Inr []
      else try_catch
             (and_then (co query (map (\<lambda>r. pageContent (document r)) results)
                          (min topK (int (length results))))
                (\<lambda>hits. Inr (map (restore results) hits)))
             (\<lambda>err. Inr (map Ranked (js_slice0 results topK))))"

definition with_title :: "search_result \<Rightarrow> string" where
  "with_title r =
     (let title = metadata (document r) ''title''
      in (if truthy title then ''Title: '' @ to_string (the title) @ ''\<newline>\<newline>'' else [])
           @ pageContent (document r))"

definition rerankWithMetadata ::
  "cohere \<Rightarrow> string \<Rightarrow> search_result list \<Rightarrow> int \<Rightarrow> error + ranked list" where
  "rerankWithMetadata co query results topK =
     (if length results = 0 then Inr []
      else try_catch
             (and_then (co query (map with_title results) (min topK (int (length results))))
                (\<lambda>hits. Inr (map (restore results) hits)))
             (\<lambda>err. rerank co query results topK))"

section \<open>RAGPipeline\<close>

text \<open>
  The pipeline holds its collaborators behind their interfaces: the vector store's
  \<open>hybridSearch\<close>, the reranker's \<open>rerankWithMetadata\<close>, and, outside mock mode, the
  prompt chain of the chat model (\<open>chain_invoke\<close> for \<open>query\<close>, \<open>chain_stream\<close> for
  \<open>streamQuery\<close>; a stream is the fragments it delivers and the error that ends it,
  if one does). In mock mode the model is \<open>MockLLM\<close>. The metrics are wall-clock
  differences and are not modelled.
\<close>

record rag_config =
  topK :: int
  rerankTopK :: int
  hybridSearchAlpha :: rat

record pipeline =
  isMockMode :: bool
  vectorStore_hybridSearch :: "string \<Rightarrow> int \<Rightarrow> error + search_result list"
  reranker_rerankWithMetadata :: "string \<Rightarrow> search_result list \<Rightarrow> int \<Rightarrow> error + ranked list"
  chain_invoke :: "string \<Rightarrow> string \<Rightarrow> error + string"
  chain_stream :: "string \<Rightarrow> string \<Rightarrow> string list \<times> error option"
  config :: rag_config

record query_options =
  useReranking :: bool
  useHybridSearch :: bool
  streamResponse :: bool

record source =
  src_content :: string
  src_metadata :: metadata
  src_relevanceScore :: rat

record rag_response =
  answer :: string
  sources :: "source list"

text \<open>
  A cited source: content, metadata and the score of the result (the field is
  \<open>relevanceScore\<close> in the response of \<open>query\<close> and \<open>score\<close> in the final event of
  \<open>streamQuery\<close>).
\<close>

definition source_of :: "search_result \<Rightarrow> source" where
  "source_of r = \<lparr>src_content = pageContent (document r),
                  src_metadata = metadata (document r),
                  src_relevanceScore = score r\<rparr>"

definition no_results_answer :: string where
  "no_results_answer =
     ''I couldn'' @ [CHR 0x27] @ ''t find any relevant information to answer your question.''"

text \<open>
  Reading \<open>result.document\<close> of an object that has only a score throws a TypeError;
  \<open>proper\<close> is the list when no element is such an object, and that error otherwise.
\<close>

fun proper :: "ranked list \<Rightarrow> error + search_result list" where
  "proper [] = Inr []"
| "proper (Ranked r # rs) = and_then (proper rs) (\<lambda>rest. Inr (r # rest))"
| "proper (ScoreOnly s # rs) = Inl (Thrown ''TypeError'')"

definition context_entry :: "nat \<Rightarrow> search_result \<Rightarrow> string" where
  "context_entry i r =
     (let src = metadata (document r) ''source''
      in ''['' @ show_nat (i + 1) @ ''] ''
           @ (if truthy src then to_string (the src) else ''Source '' @ show_nat (i + 1))
           @ '':\<newline>'' @ pageContent (document r))"

definition build_context :: "search_result list \<Rightarrow> string" where
  "build_context results =
     join ''\<newline>\<newline>'' (map (\<lambda>(i, r). context_entry i r) (enumerate 0 results))"

definition RAGPipeline_generateAnswer ::
  "pipeline \<Rightarrow> string \<Rightarrow> ranked list \<Rightarrow> bool \<Rightarrow> error + string" where
  "RAGPipeline_generateAnswer p question searchResults stream =
     (if length searchResults = 0 then Inr no_results_answer
      else and_then (proper searchResults) (\<lambda>results.
             let ctx = build_context results
             in if isMockMode p then Inr (MockLLM_generateAnswer question ctx)
                else if stream then chain_invoke p ctx question
                else chain_invoke p ctx question))"

text \<open>
  Step 1 of \<open>query\<close> and of \<open>streamQuery\<close>, \<open>if (options.useHybridSearch) ... else ...\<close>:
  the two branches hold the same call.
\<close>

definition retrieve :: "pipeline \<Rightarrow> string \<Rightarrow> bool \<Rightarrow> error + search_result list" where
  "retrieve p question hybrid =
     (if hybrid then vectorStore_hybridSearch p question (topK (config p))
      else vectorStore_hybridSearch p question (topK (config p)))"

definition RAGPipeline_query :: "pipeline \<Rightarrow> string \<Rightarrow> query_options \<Rightarrow> error + rag_response" where
  "RAGPipeline_query p question options =
     and_then (retrieve p question (useHybridSearch options)) (\<lambda>searchResults.
     and_then (if useReranking options \<and> length searchResults > 0
               then reranker_rerankWithMetadata p question searchResults (rerankTopK (config p))
               else Inr (map Ranked searchResults)) (\<lambda>searchResults.
     and_then (RAGPipeline_generateAnswer p question searchResults (streamResponse options)) (\<lambda>ans.
     and_then (proper searchResults) (\<lambda>results.
       Inr \<lparr>answer = ans, sources = map source_of results\<rparr>))))"

text \<open>
  \<open>streamQuery\<close> is a generator: its model is the list of the events it yields, in
  order, and the error that ends it when a stage throws.
\<close>

datatype event_type = Retrieval | Reranking | Generation | Complete

datatype event_data = ResultCount nat | Sources "source list"

record event =
  event_type :: event_type
  event_data :: "event_data option"
  event_chunk :: "string option"

definition plain_event :: "event_type \<Rightarrow> event" where
  "plain_event t = \<lparr>event_type = t, event_data = None, event_chunk = None\<rparr>"

definition count_event :: "event_type \<Rightarrow> nat \<Rightarrow> event" where
  "count_event t n = \<lparr>event_type = t, event_data = Some (ResultCount n), event_chunk = None\<rparr>"

definition chunk_event :: "string \<Rightarrow> event" where
  "chunk_event c = \<lparr>event_type = Generation, event_data = None, event_chunk = Some c\<rparr>"

definition complete_event :: "search_result list \<Rightarrow> event" where
  "complete_event results =
     \<lparr>event_type = Complete,
      event_data = Some (Sources (map source_of results)),
      event_chunk = None\<rparr>"

definition stream_generation ::
  "pipeline \<Rightarrow> string \<Rightarrow> event list \<Rightarrow> ranked list \<Rightarrow> event list \<times> error option" where
  "stream_generation p question yielded searchResults =
     (let yielded = yielded @ [plain_event Generation]
      in case proper searchResults of
           Inl e \<Rightarrow> (yielded, Some e)
         | Inr results \<Rightarrow>
             let ctx = build_context results
             in if isMockMode p
                then (yielded @ map chunk_event (MockLLM_streamAnswer question ctx)
                        @ [complete_event results], None)
                else (case chain_stream p ctx question of
                        (fragments, Some e) \<Rightarrow>
                          (yielded @ map chunk_event (filter (\<lambda>t. t \<noteq> []) fragments), Some e)
                      | (fragments, None) \<Rightarrow>
                          (yielded @ map chunk_event (filter (\<lambda>t. t \<noteq> []) fragments)
                             @ [complete_event results], None)))"

definition RAGPipeline_streamQuery ::
  "pipeline \<Rightarrow> string \<Rightarrow> query_options \<Rightarrow> event list \<times> error option" where
  "RAGPipeline_streamQuery p question options =
     (let yielded = [plain_event Retrieval]
      in case retrieve p question (useHybridSearch options) of
           Inl e \<Rightarrow> (yielded, Some e)
         | Inr searchResults \<Rightarrow>
             let yielded = yielded @ [count_event Retrieval (length searchResults)]
             in if useReranking options \<and> length searchResults > 0
                then (let yielded = yielded @ [plain_event Reranking]
                      in case reranker_rerankWithMetadata p question searchResults
                                (rerankTopK (config p)) of
                           Inl e \<Rightarrow> (yielded, Some e)
                         | Inr reranked \<Rightarrow>
                             stream_generation p question
                               (yielded @ [count_event Reranking (length reranked)]) reranked)
                else stream_generation p question yielded (map Ranked searchResults))"

section \<open>Building the pipeline\<close>

text \<open>
  The constructor picks the collaborators by \<open>config.mockMode\<close>: the mock store over its
  documents and the mock reranker, or the hybrid store and the Cohere reranker.
\<close>

definition mock_pipeline :: "document list \<Rightarrow> regex \<Rightarrow> rag_config \<Rightarrow> pipeline" where
  "mock_pipeline documents rx cfg =
     \<lparr>isMockMode = True,
      vectorStore_hybridSearch = (\<lambda>q limit. Inr (MockVectorStore_hybridSearch documents q limit)),
      reranker_rerankWithMetadata =
        (\<lambda>q results k. and_then (MockReranker_rerankWithMetadata rx q results k)
                          (\<lambda>rs. Inr (map Ranked rs))),
      chain_invoke = (\<lambda>ctx q. Inl (Thrown ''no chat model in mock mode'')),
      chain_stream = (\<lambda>ctx q. ([], Some (Thrown ''no chat model in mock mode''))),
      config = cfg\<rparr>"

definition live_pipeline ::
  "hybrid_store \<Rightarrow> cohere \<Rightarrow> (string \<Rightarrow> string \<Rightarrow> error + string)
     \<Rightarrow> (string \<Rightarrow> string \<Rightarrow> string list \<times> error option) \<Rightarrow> rag_config \<Rightarrow> pipeline" where
  "live_pipeline st co invoke stream cfg =
     \<lparr>isMockMode = False,
      vectorStore_hybridSearch = (\<lambda>q limit. hybridSearch st q limit (hybridSearchAlpha cfg)),
      reranker_rerankWithMetadata = rerankWithMetadata co,
      chain_invoke = invoke,
      chain_stream = stream,
      config = cfg\<rparr>"

definition default_config :: rag_config where
  "default_config = \<lparr>topK = 10, rerankTopK = 3, hybridSearchAlpha = 1 / 2\<rparr>"

section \<open>HTTP handlers\<close>

text \<open>
  The request body after destructuring: \<open>question\<close> (missing or a string), and the two
  flags, which default to true when missing.
\<close>

record query_request =
  req_question :: "string option"
  req_useReranking :: "bool option"
  req_useHybridSearch :: "bool option"

record comparison =
  configuration :: string
  cmp_answer :: string
  cmp_sources :: nat
  topSource :: "source option"

datatype response_body =
  ErrorBody string | QueryBody rag_response | CompareBody string "comparison list"

record http_response =
  http_status :: nat
  http_body :: response_body

definition bad_request :: http_response where
  "bad_request = \<lparr>http_status = 400, http_body = ErrorBody ''Question is required''\<rparr>"

definition server_error :: http_response where
  "server_error = \<lparr>http_status = 500, http_body = ErrorBody ''Internal server error''\<rparr>"

text \<open>\<open>!question\<close>: a missing question and the empty string are falsy.\<close>

definition no_question :: "string option \<Rightarrow> bool" where
  "no_question q = (case q of None \<Rightarrow> True | Some s \<Rightarrow> s = [])"

definition or_true :: "bool option \<Rightarrow> bool" where
  "or_true b = (case b of None \<Rightarrow> True | Some v \<Rightarrow> v)"

definition api_query :: "pipeline \<Rightarrow> query_request \<Rightarrow> http_response" where
  "api_query p req =
     (if no_question (req_question req) then bad_request
      else case RAGPipeline_query p (the (req_question req))
                  \<lparr>useReranking = or_true (req_useReranking req),
                   useHybridSearch = or_true (req_useHybridSearch req),
                   streamResponse = False\<rparr> of
             Inl e \<Rightarrow> server_error
           | Inr response \<Rightarrow> \<lparr>http_status = 200, http_body = QueryBody response\<rparr>)"

definition api_query_stream ::
  "pipeline \<Rightarrow> query_request \<Rightarrow> http_response + event list \<times> error option" where
  "api_query_stream p req =
     (if no_question (req_question req) then Inl bad_request
      else Inr (RAGPipeline_streamQuery p (the (req_question req))
                  \<lparr>useReranking = or_true (req_useReranking req),
                   useHybridSearch = or_true (req_useHybridSearch req),
                   streamResponse = False\<rparr>))"

definition configurations :: "(string \<times> bool \<times> bool) list" where
  "configurations =
     [(''Vector Search Only'', False, False),
      (''Hybrid Search'', False, True),
      (''Hybrid + Reranking'', True, True)]"

definition compare_one :: "pipeline \<Rightarrow> string \<Rightarrow> string \<times> bool \<times> bool \<Rightarrow> error + comparison" where
  "compare_one p question cfg =
     (case cfg of (name, rerankFlag, hybridFlag) \<Rightarrow>
        and_then (RAGPipeline_query p question
                    \<lparr>useReranking = rerankFlag, useHybridSearch = hybridFlag,
                     streamResponse = False\<rparr>) (\<lambda>response.
          Inr \<lparr>configuration = name,
               cmp_answer = answer response,
               cmp_sources = length (sources response),
               topSource = (case sources response of [] \<Rightarrow> None | s # rest \<Rightarrow> Some s)\<rparr>))"

text \<open>\<open>Promise.all\<close>: every result, or a rejection.\<close>

fun all_of :: "(error + 'a) list \<Rightarrow> error + 'a list" where
  "all_of [] = Inr []"
| "all_of (m # ms) = and_then m (\<lambda>x. and_then (all_of ms) (\<lambda>xs. Inr (x # xs)))"

definition api_compare :: "pipeline \<Rightarrow> query_request \<Rightarrow> http_response" where
  "api_compare p req =
     (if no_question (req_question req) then bad_request
      else case all_of (map (compare_one p (the (req_question req))) configurations) of
             Inl e \<Rightarrow> server_error
           | Inr results \<Rightarrow>
               \<lparr>http_status = 200,
                http_body = CompareBody (the (req_question req)) results\<rparr>)"

section \<open>Chunking\<close>

text \<open>
  The text splitters (\<open>RecursiveCharacterTextSplitter\<close>, \<open>TokenTextSplitter\<close>) and
  the regular expressions of \<open>detectContentType\<close> are library code: \<open>text_tools\<close>
  holds what they give for a text, namely the chunk texts of \<open>createDocuments\<close> for a
  chunk size and an overlap, and the number of matches of each pattern. Each chunking
  strategy replaces the metadata of the splitter's documents, so only their text stays.
\<close>

record text_tools =
  recursive_split :: "nat \<Rightarrow> nat \<Rightarrow> string \<Rightarrow> string list"
  token_split :: "nat \<Rightarrow> nat \<Rightarrow> string \<Rightarrow> string list"
  code_matches :: "string \<Rightarrow> nat"
  structured_matches :: "string \<Rightarrow> nat"

datatype content_type = Code | Structured | Narrative

fun content_type_name :: "content_type \<Rightarrow> string" where
  "content_type_name Code = ''code''"
| "content_type_name Structured = ''structured''"
| "content_type_name Narrative = ''narrative''"

definition SemanticChunking_chunk ::
  "text_tools \<Rightarrow> nat \<Rightarrow> nat \<Rightarrow> string \<Rightarrow> metadata \<Rightarrow> document list" where
  "SemanticChunking_chunk tools chunkSize chunkOverlap text md =
     map (\<lambda>(i, doc). \<lparr>pageContent = doc,
                        metadata = md(''chunkIndex'' \<mapsto> JNum (int i),
                                      ''chunkingStrategy'' \<mapsto> JStr ''semantic'')\<rparr>)
       (enumerate 0 (recursive_split tools chunkSize chunkOverlap text))"

definition TokenBasedChunking_chunk ::
  "text_tools \<Rightarrow> nat \<Rightarrow> nat \<Rightarrow> string \<Rightarrow> metadata \<Rightarrow> document list" where
  "TokenBasedChunking_chunk tools chunkSize chunkOverlap text md =
     map (\<lambda>(i, doc). \<lparr>pageContent = doc,
                        metadata = md(''chunkIndex'' \<mapsto> JNum (int i),
                                      ''chunkingStrategy'' \<mapsto> JStr ''token'')\<rparr>)
       (enumerate 0 (token_split tools chunkSize chunkOverlap text))"

text \<open>
  The ratios are matches per 100 characters. A text of length 0 makes the divisor 0:
  a positive count over 0 is infinite and exceeds each threshold, 0 over 0 is NaN and
  exceeds none.
\<close>

definition detectContentType :: "text_tools \<Rightarrow> string \<Rightarrow> content_type" where
  "detectContentType tools text =
     (let codeMatches = code_matches tools text;
          structuredMatches = structured_matches tools text;
          textLength = length text
      in if textLength = 0
         then (if codeMatches > 0 then Code
               else if structuredMatches > 0 then Structured
               else Narrative)
         else (let codeRatio = (of_nat codeMatches :: rat) / (of_nat textLength / 100);
                   structuredRatio = (of_nat structuredMatches :: rat) / (of_nat textLength / 100)
               in if codeRatio > 1 / 2 then Code
                  else if structuredRatio > 3 / 10 then Structured
                  else Narrative))"

definition AdaptiveChunking_chunk ::
  "text_tools \<Rightarrow> nat \<Rightarrow> nat \<Rightarrow> string \<Rightarrow> metadata \<Rightarrow> document list" where
  "AdaptiveChunking_chunk tools chunkSize chunkOverlap text md =
     (let contentType = detectContentType tools text;
          chunks = (case contentType of
                      Code \<Rightarrow> SemanticChunking_chunk tools 256 64 text md
                    | Structured \<Rightarrow> TokenBasedChunking_chunk tools chunkSize chunkOverlap text md
                    | Narrative \<Rightarrow> SemanticChunking_chunk tools chunkSize chunkOverlap text md)
      in map (\<lambda>(i, chunk).
                chunk\<lparr>metadata := (metadata chunk)
                   (''contentType'' \<mapsto> JStr (content_type_name contentType),
                    ''hasPrevious'' \<mapsto> JBool (i > 0),
                    ''hasNext'' \<mapsto> JBool (int i < int (length chunks) - 1),
                    ''totalChunks'' \<mapsto> JNum (int (length chunks)))\<rparr>)
           (enumerate 0 chunks))"

text \<open>A splitter for the examples: it cuts the text into pieces of \<open>chunkSize\<close> characters.\<close>

fun pieces :: "nat \<Rightarrow> nat \<Rightarrow> string \<Rightarrow> string list" where
  "pieces 0 sz s = []"
| "pieces (Suc fuel) sz s =
     (if s = [] then [] else take (max 1 sz) s # pieces fuel sz (drop (max 1 sz) s))"

definition example_tools :: text_tools where
  "example_tools =
     \<lparr>recursive_split = (\<lambda>sz overlap s. pieces (length s) sz s),
      token_split = (\<lambda>sz overlap s. pieces (length s) sz s),
      code_matches = (\<lambda>s. 0),
      structured_matches = (\<lambda>s. 0)\<rparr>"

section \<open>Example collaborators\<close>

text \<open>
  The regular expressions of words without metacharacters: such a word matches its own
  occurrences, counted from left to right without overlap, and the empty word matches
  at every position.
\<close>

fun count_from :: "string \<Rightarrow> nat \<Rightarrow> string \<Rightarrow> nat" where
  "count_from w skip [] = 0"
| "count_from w skip (c # cs) =
     (if skip > 0 then count_from w (skip - 1) cs
      else if starts_with (c # cs) w then 1 + count_from w (length w - 1) cs
      else count_from w 0 cs)"

definition example_regex :: regex where
  "example_regex pattern content =
     Inr (if pattern = [] then length content + 1 else count_from pattern 0 content)"

definition example_titled :: "string \<Rightarrow> string \<Rightarrow> search_result" where
  "example_titled title s =
     \<lparr>document = \<lparr>pageContent = s, metadata = [''title'' \<mapsto> JStr title]\<rparr>,
      score = 1, vectorScore = None, keywordScore = None\<rparr>"

text \<open>
  A provider that rejects a request holding a document that begins with a title line,
  and ranks the second document first otherwise; and one that rejects every request.
\<close>

definition example_cohere :: cohere where
  "example_cohere query documents topN =
     (if list_ex (\<lambda>d. starts_with d ''Title: '') documents then Inl (Thrown ''rejected'')
      else Inr [\<lparr>doc_index = 1, relevanceScore = 9 / 10\<rparr>,
                \<lparr>doc_index = 0, relevanceScore = 1 / 10\<rparr>])"

definition failing_cohere :: cohere where
  "failing_cohere query documents topN = Inl (Thrown ''unavailable'')"

definition example_chain :: "string \<Rightarrow> string \<Rightarrow> error + string" where
  "example_chain ctx question = Inr ''ok''"

definition example_chain_stream :: "string \<Rightarrow> string \<Rightarrow> string list \<times> error option" where
  "example_chain_stream ctx question = ([''o'', ''k''], None)"

definition example_live :: "cohere \<Rightarrow> pipeline" where
  "example_live co =
     live_pipeline example_store co example_chain example_chain_stream default_config"

text \<open>The chunks of the selected strategy, before \<open>AdaptiveChunking.chunk\<close> enriches them.\<close>

definition base_chunks :: "text_tools \<Rightarrow> nat \<Rightarrow> nat \<Rightarrow> string \<Rightarrow> metadata \<Rightarrow> document list" where
  "base_chunks tools chunkSize chunkOverlap text md =
     (case detectContentType tools text of
        Code \<Rightarrow> SemanticChunking_chunk tools 256 64 text md
      | Structured \<Rightarrow> TokenBasedChunking_chunk tools chunkSize chunkOverlap text md
      | Narrative \<Rightarrow> SemanticChunking_chunk tools chunkSize chunkOverlap text md)"

section \<open>Fusion: helper lemmas\<close>

lemma js_slice0_set: "set (js_slice0 xs e) \<subseteq> set xs"
  by (auto simp: js_slice0_def dest: in_set_takeD)

lemma js_slice0_length: "0 \<le> e \<Longrightarrow> int (length (js_slice0 xs e)) \<le> e"
  by (simp add: js_slice0_def)

lemma js_slice0_Nil [simp]: "js_slice0 [] e = []"
  by (simp add: js_slice0_def)

lemma accumulate_keys:
  "map fst (accumulate m key r s) =
     (if key \<in> fst ` set m then map fst m else map fst m @ [key])"
  by (induction m key r s rule: accumulate.induct) auto

lemma accumulate_distinct:
  "distinct (map fst m) \<Longrightarrow> distinct (map fst (accumulate m key r s))"
  by (simp add: accumulate_keys)

lemma accumulate_score_of:
  "score_of (accumulate m key r s) key' =
     score_of m key' + (if key' = key then s else 0)"
  by (induction m key r s rule: accumulate.induct) (auto simp: score_of_def)

lemma accumulate_keyed:
  "keyed m \<Longrightarrow> keyed (accumulate m (fingerprint r) r s)"
  by (induction m "fingerprint r" r s rule: accumulate.induct) (auto simp: keyed_def)

lemma process_results_distinct:
  "distinct (map fst m) \<Longrightarrow> distinct (map fst (process_results w rank xs m))"
  by (induction xs arbitrary: rank m) (simp_all add: accumulate_distinct)

lemma process_results_keyed:
  "keyed m \<Longrightarrow> keyed (process_results w rank xs m)"
  by (induction xs arbitrary: rank m) (simp_all add: accumulate_keyed)

lemma process_results_keys:
  "fst ` set (process_results w rank xs m) = fst ` set m \<union> fingerprint ` set xs"
proof (induction xs arbitrary: rank m)
  case Nil
  then show ?case by simp
next
  case (Cons x xs)
  have "fst ` set (accumulate m (fingerprint x) x s) = insert (fingerprint x) (fst ` set m)" for s
    using accumulate_keys [of m "fingerprint x" x s]
    by (metis (no_types, lifting) Un_insert_right insert_absorb list.set(1,2) list.set_map
        set_append sup_bot.right_neutral)
  with Cons show ?case by auto
qed

lemma contribution_from_sum:
  "contribution_from w key rank xs =
     (\<Sum>i \<leftarrow> [0..<length xs].
        if fingerprint (xs ! i) = key then w * (1 / (60 + of_nat (rank + i) + 1)) else 0)"
proof (induction xs arbitrary: rank)
  case Nil
  then show ?case by simp
next
  case (Cons x xs)
  have "[0..<length (x # xs)] = 0 # map Suc [0..<length xs]"
    by (simp add: upt_conv_Cons map_Suc_upt del: upt_Suc)
  then show ?case
    by (simp add: Cons.IH comp_def del: upt_Suc cong: if_cong)
qed

lemma rank_contribution_from:
  "rank_contribution w key xs = contribution_from w key 0 xs"
  by (simp add: rank_contribution_def contribution_from_sum cong: if_cong)

lemma process_results_score_of:
  "score_of (process_results w rank xs m) key =
     score_of m key + contribution_from w key rank xs"
  by (induction xs arbitrary: rank m) (auto simp: accumulate_score_of k_rrf_def)

lemma score_of_Nil [simp]: "score_of [] key = 0"
  by (simp add: score_of_def)

lemma keyed_Nil [simp]: "keyed []"
  by (simp add: keyed_def)

lemma fusedScores_score_of:
  "score_of (fusedScores v kw alpha) key =
     rank_contribution alpha key v + rank_contribution (1 - alpha) key kw"
  by (simp add: fusedScores_def process_results_score_of rank_contribution_from)

lemma fusedScores_distinct: "distinct (map fst (fusedScores v kw alpha))"
  by (simp add: fusedScores_def process_results_distinct)

lemma fusedScores_keyed: "keyed (fusedScores v kw alpha)"
  by (simp add: fusedScores_def process_results_keyed)

lemma fusedScores_keys:
  "fst ` set (fusedScores v kw alpha) = fingerprint ` (set v \<union> set kw)"
  by (auto simp: fusedScores_def process_results_keys)

lemma fused_entry_score:
  assumes "item \<in> snd ` set (fusedScores v kw alpha)"
  shows "fused_score item =
     rank_contribution alpha (fingerprint (result item)) v
       + rank_contribution (1 - alpha) (fingerprint (result item)) kw"
proof -
  from assms obtain key where mem: "(key, item) \<in> set (fusedScores v kw alpha)"
    by auto
  with fusedScores_keyed [of v kw alpha] have key: "fingerprint (result item) = key"
    by (auto simp: keyed_def)
  from mem have "map_of (fusedScores v kw alpha) key = Some item"
    by (simp add: fusedScores_distinct)
  then have "score_of (fusedScores v kw alpha) key = fused_score item"
    by (simp add: score_of_def)
  with key show ?thesis
    by (simp add: fusedScores_score_of)
qed

lemma fingerprint_score_update [simp]:
  "fingerprint (r\<lparr>score := s\<rparr>) = fingerprint r"
  by (simp add: fingerprint_def)

lemma sort_desc_set [simp]: "set (sort_desc xs) = set xs"
  by (simp add: sort_desc_def)

lemma sort_desc_sorted: "sorted_wrt (\<lambda>a b. fused_score b \<le> fused_score a) (sort_desc xs)"
proof -
  have "sorted (map (\<lambda>item. - fused_score item) (sort_desc xs))"
    by (simp add: sort_desc_def)
  then show ?thesis
    by (simp add: sorted_map sorted_wrt_iff_nth_less)
qed

lemma reciprocalRankFusion_members:
  assumes "x \<in> set (reciprocalRankFusion v kw alpha limit)"
  obtains item where "item \<in> snd ` set (fusedScores v kw alpha)"
    and "x = (result item)\<lparr>score := fused_score item\<rparr>"
proof -
  from assms obtain item
    where "item \<in> set (js_slice0 (sort_desc (map snd (fusedScores v kw alpha))) limit)"
      and x: "x = (result item)\<lparr>score := fused_score item\<rparr>"
    by (auto simp: reciprocalRankFusion_def)
  then have "item \<in> set (sort_desc (map snd (fusedScores v kw alpha)))"
    using js_slice0_set [of "sort_desc (map snd (fusedScores v kw alpha))" limit] by blast
  then have "item \<in> snd ` set (fusedScores v kw alpha)"
    by simp
  with x that show thesis by blast
qed

lemma reciprocalRankFusion_score:
  assumes "x \<in> set (reciprocalRankFusion v kw alpha limit)"
  shows "score x = rank_contribution alpha (fingerprint x) v
           + rank_contribution (1 - alpha) (fingerprint x) kw"
proof -
  from assms obtain item where "item \<in> snd ` set (fusedScores v kw alpha)"
    and "x = (result item)\<lparr>score := fused_score item\<rparr>"
    by (rule reciprocalRankFusion_members)
  then show ?thesis
    by (simp add: fused_entry_score)
qed



lemma rank_contribution_absent:
  "key \<notin> fingerprint ` set xs \<Longrightarrow> rank_contribution w key xs = 0"
proof -
  assume a: "key \<notin> fingerprint ` set xs"
  have "contribution_from w key rank xs = 0" for rank
    using a by (induction xs arbitrary: rank) auto
  then show ?thesis by (simp add: rank_contribution_from)
qed

lemma contribution_from_absent:
  "key \<notin> fingerprint ` set xs \<Longrightarrow> contribution_from w key rank xs = 0"
  by (induction xs arbitrary: rank) auto

lemma contribution_from_single:
  "distinct (map fingerprint xs) \<Longrightarrow> i < length xs \<Longrightarrow>
   contribution_from w (fingerprint (xs ! i)) rank xs = w * (1 / (60 + of_nat (rank + i) + 1))"
proof (induction xs arbitrary: rank i)
  case Nil
  then show ?case by simp
next
  case (Cons x xs)
  show ?case
  proof (cases i)
    case 0
    with Cons.prems show ?thesis by (simp add: contribution_from_absent)
  next
    case (Suc j)
    with Cons.prems have "fingerprint (xs ! j) \<noteq> fingerprint x"
      by (metis distinct.simps(2) Suc_less_eq length_Cons list.simps(9) nth_map nth_mem length_map)
    with Cons Suc show ?thesis by simp
  qed
qed

lemma rank_contribution_single:
  "distinct (map fingerprint xs) \<Longrightarrow> rank < length xs \<Longrightarrow>
   rank_contribution w (fingerprint (xs ! rank)) xs = w * (1 / (60 + of_nat rank + 1))"
  by (simp add: rank_contribution_from contribution_from_single)

lemma keyed_distinct_fingerprints:
  "keyed m \<Longrightarrow> distinct (map fst m) \<Longrightarrow> distinct (map (\<lambda>e. fingerprint (result e)) (map snd m))"
proof -
  assume k: "keyed m" and d: "distinct (map fst m)"
  from k have "map (\<lambda>e. fingerprint (result e)) (map snd m) = map fst m"
    by (auto simp: keyed_def)
  with d show ?thesis by (simp del: map_map)
qed

lemma sort_desc_distinct_map:
  "distinct (map f xs) \<Longrightarrow> distinct (map f (sort_desc xs))"
proof -
  assume "distinct (map f xs)"
  then have "card (set (map f xs)) = length (map f xs)"
    by (rule distinct_card)
  then have "card (set (map f (sort_desc xs))) = length (map f (sort_desc xs))"
    by (simp add: sort_desc_def)
  then show ?thesis
    by (rule card_distinct)
qed

lemma reciprocalRankFusion_distinct:
  "distinct (map fingerprint (reciprocalRankFusion v kw alpha limit))"
proof -
  let ?xs = "sort_desc (map snd (fusedScores v kw alpha))"
  have "distinct (map (\<lambda>e. fingerprint (result e)) (map snd (fusedScores v kw alpha)))"
    by (rule keyed_distinct_fingerprints [OF fusedScores_keyed fusedScores_distinct])
  then have "distinct (map (\<lambda>e. fingerprint (result e)) ?xs)"
    by (rule sort_desc_distinct_map)
  then have "distinct (map (\<lambda>e. fingerprint (result e)) (js_slice0 ?xs limit))"
    by (simp add: js_slice0_def take_map [symmetric] del: take_map)
  then show ?thesis
    by (simp add: reciprocalRankFusion_def comp_def)
qed

lemma reciprocalRankFusion_sorted:
  "sorted_wrt (\<lambda>a b. score b \<le> score a) (reciprocalRankFusion v kw alpha limit)"
proof -
  let ?xs = "sort_desc (map snd (fusedScores v kw alpha))"
  have "sorted_wrt (\<lambda>a b. fused_score b \<le> fused_score a) (take n ?xs)" for n
    using sort_desc_sorted [of "map snd (fusedScores v kw alpha)"]
    by (simp add: sorted_wrt_take)
  then show ?thesis
    by (simp add: reciprocalRankFusion_def js_slice0_def sorted_wrt_map)
qed

lemma reciprocalRankFusion_length:
  "0 \<le> limit \<Longrightarrow> int (length (reciprocalRankFusion v kw alpha limit)) \<le> limit"
  by (simp add: reciprocalRankFusion_def js_slice0_length)

lemma reciprocalRankFusion_empty: "reciprocalRankFusion [] [] alpha limit = []"
  by (simp add: reciprocalRankFusion_def fusedScores_def sort_desc_def)

section \<open>Claims on the fusion\<close>

text \<open>
  Claim C1. Every fingerprint (the first 100 characters of the chunk text) of either
  list has exactly one entry in the fused map, and the score accumulated there is the
  vector list's contribution at weight \<open>alpha\<close> plus the keyword list's contribution at
  weight \<open>1 - alpha\<close>, where a list contributes \<open>weight * 1/(60 + rank + 1)\<close> for the
  rank, counted from 0, at which it holds the fingerprint. Every returned candidate
  carries that accumulated score, so a chunk of both lists has both contributions in
  its one entry.
\<close>

theorem reciprocalRankFusion_weighted_sum:
  "distinct (map fst (fusedScores v kw alpha)) \<and>
   fst ` set (fusedScores v kw alpha) = fingerprint ` (set v \<union> set kw) \<and>
   (\<forall>(key, item) \<in> set (fusedScores v kw alpha).
      key = take 100 (pageContent (document (result item))) \<and>
      fused_score item =
        rank_contribution alpha key v + rank_contribution (1 - alpha) key kw) \<and>
   (\<forall>x \<in> set (reciprocalRankFusion v kw alpha limit).
      score x = rank_contribution alpha (fingerprint x) v
                  + rank_contribution (1 - alpha) (fingerprint x) kw) \<and>
   (\<forall>w xs rank. distinct (map fingerprint xs) \<and> rank < length xs \<longrightarrow>
      rank_contribution w (fingerprint (xs ! rank)) xs = w * (1 / (60 + of_nat rank + 1))) \<and>
   (\<forall>w xs key. key \<notin> fingerprint ` set xs \<longrightarrow> rank_contribution w key xs = 0)"
proof (intro conjI ballI allI impI)
  show "distinct (map fst (fusedScores v kw alpha))"
    by (rule fusedScores_distinct)
  show "fst ` set (fusedScores v kw alpha) = fingerprint ` (set v \<union> set kw)"
    by (rule fusedScores_keys)
next
  fix p
  assume p: "p \<in> set (fusedScores v kw alpha)"
  obtain key item where eq: "p = (key, item)"
    by (cases p)
  from p eq fusedScores_keyed [of v kw alpha] have key: "fingerprint (result item) = key"
    by (auto simp: keyed_def)
  from p eq have "item \<in> snd ` set (fusedScores v kw alpha)"
    by force
  then have "fused_score item =
      rank_contribution alpha (fingerprint (result item)) v
        + rank_contribution (1 - alpha) (fingerprint (result item)) kw"
    by (rule fused_entry_score)
  with key eq show "case p of (key, item) \<Rightarrow>
      key = take 100 (pageContent (document (result item))) \<and>
      fused_score item =
        rank_contribution alpha key v + rank_contribution (1 - alpha) key kw"
    by (simp add: fingerprint_def)
next
  fix x
  assume "x \<in> set (reciprocalRankFusion v kw alpha limit)"
  then show "score x = rank_contribution alpha (fingerprint x) v
                  + rank_contribution (1 - alpha) (fingerprint x) kw"
    by (rule reciprocalRankFusion_score)
next
  fix w xs rank
  assume "distinct (map fingerprint xs) \<and> rank < length xs"
  then show "rank_contribution w (fingerprint (xs ! rank)) xs = w * (1 / (60 + of_nat rank + 1))"
    by (simp add: rank_contribution_single)
next
  fix w xs key
  assume "key \<notin> fingerprint ` set xs"
  then show "rank_contribution w key xs = 0"
    by (rule rank_contribution_absent)
qed

lemmas fusion_eval = reciprocalRankFusion_def fusedScores_def example_result_def example_doc_def fingerprint_def k_rrf_def sort_desc_def js_slice0_def

theorem reciprocalRankFusion_weighted_sum_witness:
  "fingerprint (reciprocalRankFusion [example_result ''a'' 1, example_result ''b'' 2]
                  [example_result ''b'' 3, example_result ''c'' 1] (1/2) 2 ! 0) = ''b'' \<and>
   score (reciprocalRankFusion [example_result ''a'' 1, example_result ''b'' 2]
            [example_result ''b'' 3, example_result ''c'' 1] (1/2) 2 ! 0)
     = 1/2 * (1 / (60 + 1 + 1)) + (1 - 1/2) * (1 / (60 + 0 + 1))"
proof -
  let ?v = "[example_result ''a'' 1, example_result ''b'' 2]"
  let ?kw = "[example_result ''b'' 3, example_result ''c'' 1]"
  let ?x = "reciprocalRankFusion ?v ?kw (1/2) 2 ! 0"
  have mem: "?x \<in> set (reciprocalRankFusion ?v ?kw (1/2) 2)"
    by (simp add: fusion_eval)
  have fp: "fingerprint ?x = ''b''"
    by (simp add: fusion_eval)
  from reciprocalRankFusion_weighted_sum [of ?v ?kw "1/2" 2] mem
  have "score ?x = rank_contribution (1/2) (fingerprint ?x) ?v
                     + rank_contribution (1 - 1/2) (fingerprint ?x) ?kw"
    by blast
  then have "score ?x = 1/2 * (1 / (60 + 1 + 1)) + (1 - 1/2) * (1 / (60 + 0 + 1))"
    unfolding fp
    by (simp add: rank_contribution_def example_result_def example_doc_def fingerprint_def)
  with fp show ?thesis by simp
qed

lemma hybridSearch_results:
  assumes "hybridSearch st query limit alpha = Inr rs"
  obtains v kw where "rs = reciprocalRankFusion v kw alpha limit"
  using assms
  by (auto simp: hybridSearch_def and_then_def split: sum.splits)

text \<open>
  Claim C2. The list returned by \<open>reciprocalRankFusion\<close> is in descending order of
  the accumulated fused score, has at most \<open>limit\<close> elements, \<open>limit\<close> being a result
  count (not negative), and is empty when both input lists are; the same holds of
  every list that \<open>hybridSearch\<close> returns, which is the result of the fusion.
\<close>

theorem fusion_sorted_and_bounded:
  "sorted_wrt (\<lambda>a b. score b \<le> score a) (reciprocalRankFusion v kw alpha limit) \<and>
   (0 \<le> limit \<longrightarrow> int (length (reciprocalRankFusion v kw alpha limit)) \<le> limit) \<and>
   reciprocalRankFusion [] [] alpha limit = [] \<and>
   (\<forall>rs. hybridSearch st query limit alpha = Inr rs \<longrightarrow>
      sorted_wrt (\<lambda>a b. score b \<le> score a) rs \<and> (0 \<le> limit \<longrightarrow> int (length rs) \<le> limit))"
proof (intro conjI allI impI)
  show "sorted_wrt (\<lambda>a b. score b \<le> score a) (reciprocalRankFusion v kw alpha limit)"
    by (rule reciprocalRankFusion_sorted)
  show "reciprocalRankFusion [] [] alpha limit = []"
    by (rule reciprocalRankFusion_empty)
next
  assume "0 \<le> limit"
  then show "int (length (reciprocalRankFusion v kw alpha limit)) \<le> limit"
    by (rule reciprocalRankFusion_length)
next
  fix rs
  assume "hybridSearch st query limit alpha = Inr rs"
  then obtain v' kw' where rs: "rs = reciprocalRankFusion v' kw' alpha limit"
    by (rule hybridSearch_results)
  show "sorted_wrt (\<lambda>a b. score b \<le> score a) rs"
    unfolding rs by (rule reciprocalRankFusion_sorted)
  assume "0 \<le> limit"
  then show "int (length rs) \<le> limit"
    unfolding rs by (rule reciprocalRankFusion_length)
qed

lemmas store_eval = hybridSearch_def example_store_def embedQueryWithExpansion_def and_then_def generateQueryExpansion_def expansions_def
    toLowerCase_def lower_char_def vectorSearch_def keywordSearch_def or_zero_def
   reciprocalRankFusion_def fusedScores_def fingerprint_def k_rrf_def sort_desc_def js_slice0_def Let_def

theorem fusion_sorted_and_bounded_witness:
  "(0::int) \<le> 2 \<and>
   (\<exists>rs. hybridSearch example_store ''api speed'' 2 (1/2) = Inr rs \<and>
      map (\<lambda>r. pageContent (document r)) rs = [''slow db'', ''fast api''] \<and>
      sorted_wrt (\<lambda>a b. score b \<le> score a) rs \<and> int (length rs) \<le> 2)"
proof -
  obtain rs where rs: "hybridSearch example_store ''api speed'' 2 (1/2) = Inr rs"
    and docs: "map (\<lambda>r. pageContent (document r)) rs = [''slow db'', ''fast api'']"
    by (simp add: store_eval)
  from fusion_sorted_and_bounded [of _ _ "1/2" 2 example_store "''api speed''"] rs
  have "sorted_wrt (\<lambda>a b. score b \<le> score a) rs \<and> int (length rs) \<le> 2"
    by simp
  with rs docs show ?thesis by simp
qed

section \<open>Fusion with alpha 0 or 1\<close>

lemma filter_take_sorted:
  "sorted_wrt (\<lambda>a b. s b \<le> s a) xs \<Longrightarrow>
   filter (\<lambda>x. (0::rat) < s x) (take n xs) = take n (filter (\<lambda>x. 0 < s x) xs)"
proof (induction xs arbitrary: n)
  case Nil
  then show ?case by simp
next
  case (Cons x xs)
  show ?case
  proof (cases n)
    case 0
    then show ?thesis by simp
  next
    case (Suc m)
    show ?thesis
    proof (cases "0 < s x")
      case True
      with Cons Suc show ?thesis by simp
    next
      case False
      with Cons.prems have "\<forall>y \<in> set xs. \<not> 0 < s y"
        by fastforce
      then have "filter (\<lambda>x. 0 < s x) xs = []" and "filter (\<lambda>x. 0 < s x) (take m xs) = []"
        by (auto simp: filter_empty_conv dest: in_set_takeD)
      with False Suc show ?thesis by simp
    qed
  qed
qed

lemma enumerate_ranking_strict:
  "sorted_wrt (\<lambda>a b. snd b < snd a)
     (map (\<lambda>(rank, r). (fingerprint r, 1 / (60 + rat_of_nat rank + 1))) (enumerate n xs))"
proof (induction xs arbitrary: n)
  case Nil
  then show ?case by simp
next
  case (Cons x xs)
  have "1 / (60 + rat_of_nat rank + 1) < 1 / (60 + rat_of_nat n + 1)"
    if "(rank, r) \<in> set (enumerate (Suc n) xs)" for rank r
  proof -
    from that have "n < rank"
      by (auto simp: in_set_enumerate_eq)
    then show ?thesis
      by (simp add: frac_less2)
  qed
  with Cons.IH [of "Suc n"] show ?case
    by auto
qed

lemma list_ranking_strict: "sorted_wrt (\<lambda>a b. snd b < snd a) (list_ranking xs)"
  unfolding list_ranking_def by (rule enumerate_ranking_strict)

lemma list_ranking_set:
  "set (list_ranking xs) = {(fingerprint (xs ! i), 1 / (60 + rat_of_nat i + 1)) | i. i < length xs}"
  by (force simp: list_ranking_def in_set_enumerate_eq image_iff)

lemma list_ranking_inj: "inj_on (\<lambda>p. - snd p) (set (list_ranking xs))"
  by (auto simp: list_ranking_set inj_on_def)

lemma strict_sorted_neg:
  assumes "sorted_wrt (\<lambda>a b. snd b < snd a) (ps :: (string \<times> rat) list)"
  shows "sorted (map (\<lambda>p. - snd p) ps) \<and> distinct (map (\<lambda>p. - snd p) ps)"
proof -
  from assms have "sorted_wrt (<) (map (\<lambda>p. - snd p) ps)"
    by (simp add: sorted_wrt_map)
  then show ?thesis
    using strict_sorted_iff by blast
qed

lemma positive_ranking:
  assumes S: "\<And>key. rank_contribution alpha key v + rank_contribution (1 - alpha) key kw
                  = rank_contribution 1 key xs"
    and sub: "set xs \<subseteq> set v \<union> set kw"
    and dist: "distinct (map fingerprint xs)"
  shows "map (\<lambda>e. (fingerprint (result e), fused_score e))
           (filter (\<lambda>e. 0 < fused_score e) (sort_desc (map snd (fusedScores v kw alpha))))
         = list_ranking xs"
proof -
  let ?m = "fusedScores v kw alpha"
  let ?E = "sort_desc (map snd ?m)"
  let ?P = "filter (\<lambda>e. 0 < fused_score e) ?E"
  let ?g = "\<lambda>e. (fingerprint (result e), fused_score e)"
  have sc: "fused_score e = rank_contribution 1 (fingerprint (result e)) xs"
    if "e \<in> snd ` set ?m" for e
    using fused_entry_score [OF that] S by simp
  have pos: "rank_contribution 1 (fingerprint (xs ! i)) xs = 1 / (60 + rat_of_nat i + 1)"
    if "i < length xs" for i
    using rank_contribution_single [OF dist that, of 1] by simp
  have set_eq: "set (map ?g ?P) = set (list_ranking xs)"
  proof (rule set_eqI, rule iffI)
    fix p
    assume "p \<in> set (map ?g ?P)"
    then obtain e where e: "e \<in> snd ` set ?m" and gt: "0 < fused_score e" and p: "p = ?g e"
      by auto
    from sc [OF e] gt have "rank_contribution 1 (fingerprint (result e)) xs \<noteq> 0"
      by simp
    then have "fingerprint (result e) \<in> fingerprint ` set xs"
      using rank_contribution_absent by blast
    then obtain i where i: "i < length xs" and k: "fingerprint (result e) = fingerprint (xs ! i)"
      by (auto simp: in_set_conv_nth)
    from sc [OF e] k pos [OF i] have "fused_score e = 1 / (60 + rat_of_nat i + 1)"
      by simp
    with p k i show "p \<in> set (list_ranking xs)"
      by (auto simp: list_ranking_set)
  next
    fix p
    assume "p \<in> set (list_ranking xs)"
    then obtain i where i: "i < length xs"
      and p: "p = (fingerprint (xs ! i), 1 / (60 + rat_of_nat i + 1))"
      by (auto simp: list_ranking_set)
    from i sub have "fingerprint (xs ! i) \<in> fingerprint ` (set v \<union> set kw)"
      using nth_mem by blast
    then have "fingerprint (xs ! i) \<in> fst ` set ?m"
      by (simp only: fusedScores_keys)
    then obtain e where mem: "(fingerprint (xs ! i), e) \<in> set ?m"
      by force
    with fusedScores_keyed [of v kw alpha] have k: "fingerprint (result e) = fingerprint (xs ! i)"
      by (auto simp: keyed_def)
    from mem have e: "e \<in> snd ` set ?m"
      by force
    from sc [OF e] k pos [OF i] have val: "fused_score e = 1 / (60 + rat_of_nat i + 1)"
      by simp
    then have "0 < fused_score e"
      by simp
    with e have "e \<in> set ?P"
      by simp
    moreover from k val p have "?g e = p"
      by simp
    ultimately show "p \<in> set (map ?g ?P)"
      by force
  qed
  have "sorted (map (\<lambda>e. - fused_score e) ?E)"
    by (simp add: sort_desc_def)
  then have "sorted (map (\<lambda>e. - fused_score e) ?P)"
    by (rule sorted_filter)
  then have sorted_P: "sorted (map (\<lambda>p. - snd p) (map ?g ?P))"
    by (simp add: comp_def)
  have "distinct (map (\<lambda>e. fingerprint (result e)) (map snd ?m))"
    by (rule keyed_distinct_fingerprints [OF fusedScores_keyed fusedScores_distinct])
  then have "distinct (map (\<lambda>e. fingerprint (result e)) ?E)"
    by (rule sort_desc_distinct_map)
  then have "distinct (map (\<lambda>e. fingerprint (result e)) ?P)"
    by (rule distinct_map_filter)
  then have "distinct (map fst (map ?g ?P))"
    by (simp add: comp_def)
  then have dP: "distinct (map ?g ?P)"
    by (simp only: distinct_map)
  from list_ranking_inj [of xs] set_eq
  have inj: "inj_on (\<lambda>p. - snd p) (set (map ?g ?P) \<union> set (list_ranking xs))"
    by simp
  then have "inj_on (\<lambda>p. - snd p) (set (map ?g ?P))"
    by (rule inj_on_subset) simp
  with dP have distinct_P: "distinct (map (\<lambda>p. - snd p) (map ?g ?P))"
    by (simp only: distinct_map simp_thms)
  from strict_sorted_neg [OF list_ranking_strict [of xs]]
  have sorted_L: "sorted (map (\<lambda>p. - snd p) (list_ranking xs))"
    and distinct_L: "distinct (map (\<lambda>p. - snd p) (list_ranking xs))"
    by simp_all
  show ?thesis
    by (rule map_sorted_distinct_set_unique [OF inj sorted_P distinct_P sorted_L distinct_L set_eq])
qed

lemma positive_ranking_fusion:
  assumes S: "\<And>key. rank_contribution alpha key v + rank_contribution (1 - alpha) key kw
                  = rank_contribution 1 key xs"
    and sub: "set xs \<subseteq> set v \<union> set kw"
    and dist: "distinct (map fingerprint xs)"
    and lim: "0 \<le> limit"
  shows "ranking (filter (\<lambda>x. 0 < score x) (reciprocalRankFusion v kw alpha limit))
         = take (nat limit) (list_ranking xs)"
proof -
  let ?E = "sort_desc (map snd (fusedScores v kw alpha))"
  let ?h = "\<lambda>item. (result item)\<lparr>score := fused_score item\<rparr>"
  let ?g = "\<lambda>e. (fingerprint (result e), fused_score e)"
  from lim have rrf: "reciprocalRankFusion v kw alpha limit = map ?h (take (nat limit) ?E)"
    by (simp add: reciprocalRankFusion_def js_slice0_def)
  have "filter (\<lambda>x. 0 < score x) (map ?h (take (nat limit) ?E))
          = map ?h (filter (\<lambda>e. 0 < fused_score e) (take (nat limit) ?E))"
    by (simp add: filter_map comp_def)
  also have "\<dots> = map ?h (take (nat limit) (filter (\<lambda>e. 0 < fused_score e) ?E))"
    by (simp only: filter_take_sorted [OF sort_desc_sorted])
  finally have "ranking (filter (\<lambda>x. 0 < score x) (reciprocalRankFusion v kw alpha limit))
          = take (nat limit) (map ?g (filter (\<lambda>e. 0 < fused_score e) ?E))"
    by (simp add: rrf ranking_def comp_def take_map)
  with positive_ranking [OF S sub dist] show ?thesis
    by simp
qed

lemma contribution_from_zero: "contribution_from 0 key rank xs = 0"
  by (induction xs arbitrary: rank) simp_all

lemma rank_contribution_zero [simp]: "rank_contribution 0 key xs = 0"
  by (simp add: rank_contribution_from contribution_from_zero)

lemma keyword_only_ranking:
  "distinct (map fingerprint kw) \<Longrightarrow> 0 \<le> limit \<Longrightarrow>
   ranking (filter (\<lambda>x. 0 < score x) (reciprocalRankFusion v kw 0 limit))
     = take (nat limit) (list_ranking kw)"
  by (rule positive_ranking_fusion) auto

lemma vector_only_ranking:
  "distinct (map fingerprint v) \<Longrightarrow> 0 \<le> limit \<Longrightarrow>
   ranking (filter (\<lambda>x. 0 < score x) (reciprocalRankFusion v kw 1 limit))
     = take (nat limit) (list_ranking v)"
  by (rule positive_ranking_fusion) auto

text \<open>
  Claim C6, as the code has it. With \<open>alpha = 0\<close> the vector list still puts its
  candidates into the fused map, with score 0, so they are returned behind the keyword
  candidates and the returned list does change with the vector list. What depends on
  the keyword list alone is every returned score and, when the fingerprints of the
  keyword list are pairwise distinct and the limit is not negative, the ranking of
  the candidates with a positive score: it is the keyword list in its own order, cut
  at the limit. With \<open>alpha = 1\<close> the same holds with the two lists exchanged.
\<close>

theorem degenerate_alpha_ranking:
  "(distinct (map fingerprint kw) \<and> 0 \<le> limit \<longrightarrow>
      ranking (filter (\<lambda>x. 0 < score x) (reciprocalRankFusion v kw 0 limit))
        = take (nat limit) (list_ranking kw)) \<and>
   (distinct (map fingerprint v) \<and> 0 \<le> limit \<longrightarrow>
      ranking (filter (\<lambda>x. 0 < score x) (reciprocalRankFusion v kw 1 limit))
        = take (nat limit) (list_ranking v)) \<and>
   (\<forall>x \<in> set (reciprocalRankFusion v kw 0 limit).
      score x = rank_contribution 1 (fingerprint x) kw) \<and>
   (\<forall>x \<in> set (reciprocalRankFusion v kw 1 limit).
      score x = rank_contribution 1 (fingerprint x) v) \<and>
   (\<forall>x \<in> set (reciprocalRankFusion v kw 0 limit).
      fingerprint x \<notin> fingerprint ` set kw \<longrightarrow> score x = 0) \<and>
   (\<forall>x \<in> set (reciprocalRankFusion v kw 1 limit).
      fingerprint x \<notin> fingerprint ` set v \<longrightarrow> score x = 0)"
proof (intro conjI impI ballI)
  assume "distinct (map fingerprint kw) \<and> 0 \<le> limit"
  then show "ranking (filter (\<lambda>x. 0 < score x) (reciprocalRankFusion v kw 0 limit))
        = take (nat limit) (list_ranking kw)"
    by (simp add: keyword_only_ranking)
next
  assume "distinct (map fingerprint v) \<and> 0 \<le> limit"
  then show "ranking (filter (\<lambda>x. 0 < score x) (reciprocalRankFusion v kw 1 limit))
        = take (nat limit) (list_ranking v)"
    by (simp add: vector_only_ranking)
next
  fix x
  assume "x \<in> set (reciprocalRankFusion v kw 0 limit)"
  then show "score x = rank_contribution 1 (fingerprint x) kw"
    by (simp add: reciprocalRankFusion_score)
next
  fix x
  assume "x \<in> set (reciprocalRankFusion v kw 1 limit)"
  then show "score x = rank_contribution 1 (fingerprint x) v"
    by (simp add: reciprocalRankFusion_score)
next
  fix x
  assume "x \<in> set (reciprocalRankFusion v kw 0 limit)"
    and "fingerprint x \<notin> fingerprint ` set kw"
  then show "score x = 0"
    by (simp add: reciprocalRankFusion_score rank_contribution_absent)
next
  fix x
  assume "x \<in> set (reciprocalRankFusion v kw 1 limit)"
    and "fingerprint x \<notin> fingerprint ` set v"
  then show "score x = 0"
    by (simp add: reciprocalRankFusion_score rank_contribution_absent)
qed

theorem degenerate_alpha_ranking_witness:
  "distinct (map fingerprint [example_result ''b'' 3, example_result ''c'' 1]) \<and>
   ranking (filter (\<lambda>x. 0 < score x)
     (reciprocalRankFusion [example_result ''a'' 1, example_result ''b'' 2]
        [example_result ''b'' 3, example_result ''c'' 1] 0 10))
     = [(''b'', 1 / 61), (''c'', 1 / 62)]"
proof -
  have d: "distinct (map fingerprint [example_result ''b'' 3, example_result ''c'' 1])"
    by (simp add: example_result_def example_doc_def fingerprint_def)
  with degenerate_alpha_ranking
         [of "[example_result ''b'' 3, example_result ''c'' 1]" 10
             "[example_result ''a'' 1, example_result ''b'' 2]"]
  have "ranking (filter (\<lambda>x. 0 < score x)
     (reciprocalRankFusion [example_result ''a'' 1, example_result ''b'' 2]
        [example_result ''b'' 3, example_result ''c'' 1] 0 10))
     = take (nat 10) (list_ranking [example_result ''b'' 3, example_result ''c'' 1])"
    by simp
  with d show ?thesis
    by (simp add: list_ranking_def example_result_def example_doc_def fingerprint_def)
qed

theorem alpha_zero_depends_on_vector_list:
  "ranking (reciprocalRankFusion [example_result ''a'' 1, example_result ''c'' 1]
     [example_result ''b'' 1] 0 10) = [(''b'', 1 / 61), (''a'', 0), (''c'', 0)] \<and>
   ranking (reciprocalRankFusion [example_result ''c'' 1, example_result ''a'' 1]
     [example_result ''b'' 1] 0 10) = [(''b'', 1 / 61), (''c'', 0), (''a'', 0)] \<and>
   ranking (reciprocalRankFusion [example_result ''b'' 1]
     [example_result ''a'' 1, example_result ''c'' 1] 1 10) = [(''b'', 1 / 61), (''a'', 0), (''c'', 0)] \<and>
   ranking (reciprocalRankFusion [example_result ''b'' 1]
     [example_result ''c'' 1, example_result ''a'' 1] 1 10) = [(''b'', 1 / 61), (''c'', 0), (''a'', 0)]"
  by (simp add: fusion_eval ranking_def)

section \<open>Mock services: properties\<close>

lemma toLowerCase_Latin1:
  "toLowerCase [CHR ''C'', CHR ''a'', CHR ''F'', CHR 0xC9, CHR 0xD7, CHR 0xDF]
     = [CHR ''c'', CHR ''a'', CHR ''f'', CHR 0xE9, CHR 0xD7, CHR 0xDF]"
  by code_simp

lemma split_on_not_Nil [simp]: "split_on sep s \<noteq> []"
  by (induction s) (auto split: list.splits)

lemma join_Cons: "ws \<noteq> [] \<Longrightarrow> join sep (w # ws) = w @ sep @ join sep ws"
  by (cases ws) simp_all

lemma join_split_on: "join [sep] (split_on sep s) = s"
proof (induction s)
  case Nil
  then show ?case by simp
next
  case (Cons c cs)
  obtain w ws where split: "split_on sep cs = w # ws"
    using split_on_not_Nil [of sep cs] by (cases "split_on sep cs") auto
  show ?case
  proof (cases "c = sep")
    case True
    with Cons show ?thesis by (simp add: join_Cons)
  next
    case False
    with Cons split show ?thesis by (cases ws) simp_all
  qed
qed

lemma concat_fragments:
  "ws \<noteq> [] \<Longrightarrow>
   concat (map (\<lambda>i. ws ! i @ (if i < length ws - 1 then sep else [])) [0..<length ws])
     = join sep ws"
proof (induction ws)
  case Nil
  then show ?case by simp
next
  case (Cons w ws)
  show ?case
  proof (cases ws)
    case Nil
    then show ?thesis by simp
  next
    case (Cons v vs)
    have upt: "[0..<length (w # ws)] = 0 # map Suc [0..<length ws]"
      by (simp add: upt_conv_Cons map_Suc_upt del: upt_Suc)
    have "concat (map (\<lambda>i. (w # ws) ! i @ (if i < length (w # ws) - 1 then sep else []))
                    (map Suc [0..<length ws]))
          = concat (map (\<lambda>i. ws ! i @ (if i < length ws - 1 then sep else [])) [0..<length ws])"
      by (rule arg_cong [where f = concat]) (auto simp: Cons)
    with Cons.IH Cons show ?thesis
      unfolding upt by (simp add: join_Cons del: upt_Suc)
  qed
qed

lemma hash_index: "nat \<bar>sint (MockLLM_hashCode q)\<bar> mod 3 < length (responses q)"
  by (simp add: responses_def)

text \<open>
  Claim C9. The mock answer is a function of the question alone: it is the canned
  response at index \<open>|hashCode question| mod 3\<close>, an index within the three
  responses, whatever the context, so two calls on one input agree; and the fragments
  \<open>streamAnswer\<close> yields on that input, concatenated in order, are that same text.
\<close>

theorem MockLLM_deterministic:
  "MockLLM_generateAnswer question context
     = responses question ! (nat \<bar>sint (MockLLM_hashCode question)\<bar> mod 3) \<and>
   nat \<bar>sint (MockLLM_hashCode question)\<bar> mod 3 < length (responses question) \<and>
   MockLLM_generateAnswer question context' = MockLLM_generateAnswer question context \<and>
   concat (MockLLM_streamAnswer question context) = MockLLM_generateAnswer question context"
proof (intro conjI)
  show "MockLLM_generateAnswer question context
     = responses question ! (nat \<bar>sint (MockLLM_hashCode question)\<bar> mod 3)"
    by (simp add: MockLLM_generateAnswer_def responses_def)
  show "nat \<bar>sint (MockLLM_hashCode question)\<bar> mod 3 < length (responses question)"
    by (rule hash_index)
  show "MockLLM_generateAnswer question context' = MockLLM_generateAnswer question context"
    by (simp add: MockLLM_generateAnswer_def)
  have "concat (MockLLM_streamAnswer question context)
          = join '' '' (split_on (CHR '' '') (MockLLM_generateAnswer question context))"
    unfolding MockLLM_streamAnswer_def Let_def
    by (rule concat_fragments) simp
  then show "concat (MockLLM_streamAnswer question context) = MockLLM_generateAnswer question context"
    by (simp only: join_split_on)
qed

lemma fold_no_match:
  "\<forall>word \<in> set ws. \<not> str_includes content word \<Longrightarrow>
   fold (\<lambda>word acc. acc + (if str_includes content word then 1 else 0)) ws (a::nat) = a"
  by (induction ws arbitrary: a) simp_all

lemma word_score_no_match:
  "\<forall>word \<in> set ws. \<not> str_includes content word \<Longrightarrow> word_score ws content = 0"
  by (simp add: word_score_def fold_no_match)

lemma fallback_eq:
  "map (\<lambda>(i, doc). \<lparr>document = doc, score = 1 / 2 - of_nat i * (1 / 10),
                     vectorScore = Some (1 / 2 - of_nat i * (1 / 10)), keywordScore = None\<rparr>)
     (enumerate 0 (js_slice0 documents (int (min 3 (length documents))))) = fallback documents"
  by (simp add: fallback_def js_slice0_def min_def)

lemma fallback_not_Nil: "documents \<noteq> [] \<Longrightarrow> fallback documents \<noteq> []"
  by (cases documents) (simp_all add: fallback_def)

lemma MockVectorStore_nonempty:
  "documents \<noteq> [] \<Longrightarrow> MockVectorStore_hybridSearch documents query limit \<noteq> []"
  unfolding MockVectorStore_hybridSearch_def Let_def fallback_eq
  by (simp add: fallback_not_Nil del: map_is_Nil_conv)

lemma MockVectorStore_fallback:
  assumes "documents \<noteq> []"
    and "\<forall>doc \<in> set documents. \<forall>word \<in> set (split_on (CHR '' '') (toLowerCase query)).
           \<not> str_includes (toLowerCase (pageContent doc)) word"
  shows "MockVectorStore_hybridSearch documents query limit = fallback documents"
proof -
  let ?qw = "split_on (CHR '' '') (toLowerCase query)"
  have "filter (\<lambda>r. hit_score r > 0)
          (map (\<lambda>(index, doc). \<lparr>hit_document = doc,
                                 hit_score = word_score ?qw (toLowerCase (pageContent doc)),
                                 hit_index = index\<rparr>) (enumerate 0 documents)) = []"
    using assms(2)
    by (auto simp: filter_empty_conv word_score_no_match in_set_enumerate_eq)
  with assms(1) show ?thesis
    unfolding MockVectorStore_hybridSearch_def Let_def fallback_eq
    by simp
qed

lemma fallback_scores: "map score (fallback documents) = take (length documents) [1 / 2, 2 / 5, 3 / 10]"
proof (cases documents)
  case Nil
  then show ?thesis by (simp add: fallback_def)
next
  case (Cons a as)
  note A = Cons
  show ?thesis
  proof (cases as)
    case Nil
    with A show ?thesis by (simp add: fallback_def)
  next
    case (Cons b bs)
    note B = Cons
    show ?thesis
    proof (cases bs)
      case Nil
      with A B show ?thesis by (simp add: fallback_def)
    next
      case (Cons c cs)
      with A B show ?thesis by (simp add: fallback_def)
    qed
  qed
qed

section \<open>Reranker: properties\<close>

lemma rerank_returns: "\<exists>rs. rerank co query results k = Inr rs"
  by (auto simp: rerank_def try_catch_def and_then_def split: sum.splits)

lemma rerankWithMetadata_returns: "\<exists>rs. rerankWithMetadata co query results k = Inr rs"
  using rerank_returns [of co query results k]
  by (auto simp: rerankWithMetadata_def try_catch_def and_then_def split: sum.splits)

lemma rerank_fallback:
  assumes "co query (map (\<lambda>r. pageContent (document r)) results)
             (min k (int (length results))) = Inl e"
  shows "rerank co query results k = Inr (map Ranked (js_slice0 results k))"
  using assms by (simp add: rerank_def try_catch_def and_then_def)

lemma rerankWithMetadata_fallback:
  assumes "co query (map with_title results) (min k (int (length results))) = Inl e"
    and "co query (map (\<lambda>r. pageContent (document r)) results)
             (min k (int (length results))) = Inl e'"
  shows "rerankWithMetadata co query results k = Inr (map Ranked (js_slice0 results k))"
  using assms by (simp add: rerankWithMetadata_def rerank_fallback try_catch_def and_then_def)

lemma proper_Ranked [simp]: "proper (map Ranked rs) = Inr rs"
  by (induction rs) (simp_all add: and_then_def)

lemma js_slice0_take: "0 \<le> e \<Longrightarrow> js_slice0 xs e = take (nat e) xs"
  by (simp add: js_slice0_def)

lemma query_with_failing_reranker:
  assumes fail: "\<forall>q docs n. \<exists>e. co q docs n = Inl e"
    and found: "hybridSearch st question (topK cfg) (hybridSearchAlpha cfg) = Inr found"
    and model: "\<forall>ctx. \<exists>a. invoke ctx question = Inr a"
  shows "\<exists>a. RAGPipeline_query (live_pipeline st co invoke stream cfg) question
                \<lparr>useReranking = True, useHybridSearch = h, streamResponse = s\<rparr>
              = Inr \<lparr>answer = a, sources = map source_of (js_slice0 found (rerankTopK cfg))\<rparr>"
proof -
  let ?p = "live_pipeline st co invoke stream cfg"
  let ?cut = "js_slice0 found (rerankTopK cfg)"
  have retrieve: "retrieve ?p question h = Inr found"
    using found by (simp add: retrieve_def live_pipeline_def)
  from fail obtain e e' where
    "co question (map with_title found) (min (rerankTopK cfg) (int (length found))) = Inl e"
    "co question (map (\<lambda>r. pageContent (document r)) found)
       (min (rerankTopK cfg) (int (length found))) = Inl e'"
    by metis
  then have rr: "rerankWithMetadata co question found (rerankTopK cfg) = Inr (map Ranked ?cut)"
    by (rule rerankWithMetadata_fallback)
  have rr': "found = [] \<Longrightarrow> map Ranked found = map Ranked ?cut"
    by simp
  from model obtain a where a: "invoke (build_context ?cut) question = Inr a"
    by blast
  have gen: "\<exists>a. RAGPipeline_generateAnswer ?p question (map Ranked ?cut) s = Inr a"
    using a by (simp add: RAGPipeline_generateAnswer_def live_pipeline_def and_then_def)
  then obtain ans where "RAGPipeline_generateAnswer ?p question (map Ranked ?cut) s = Inr ans"
    by blast
  with retrieve rr rr' show ?thesis
    by (cases "found = []")
       (simp_all add: RAGPipeline_query_def and_then_def live_pipeline_def)
qed

text \<open>
  Claim C5, as the code has it. Neither \<open>rerank\<close> nor \<open>rerankWithMetadata\<close> ever
  propagates an error. When the provider throws, \<open>rerank\<close> returns
  \<open>results.slice(0, topK)\<close>, the first \<open>topK\<close> candidates in their order for a
  \<open>topK\<close> that is not negative. \<open>rerankWithMetadata\<close> first falls back to \<open>rerank\<close>,
  which asks the provider again with the plain chunk texts, and returns that slice
  when this second call throws too. So with a provider that throws on every call a
  query whose retrieval and generation succeed returns a response whose sources are
  that prefix of the retrieved order.
\<close>

theorem reranker_failure_fallback:
  "(\<exists>rs. rerank co query results k = Inr rs) \<and>
   (\<exists>rs. rerankWithMetadata co query results k = Inr rs) \<and>
   ((\<exists>e. co query (map (\<lambda>r. pageContent (document r)) results)
            (min k (int (length results))) = Inl e) \<longrightarrow>
      rerank co query results k = Inr (map Ranked (js_slice0 results k))) \<and>
   ((\<exists>e. co query (map with_title results) (min k (int (length results))) = Inl e) \<and>
    (\<exists>e. co query (map (\<lambda>r. pageContent (document r)) results)
            (min k (int (length results))) = Inl e) \<longrightarrow>
      rerankWithMetadata co query results k = Inr (map Ranked (js_slice0 results k))) \<and>
   (0 \<le> k \<longrightarrow> js_slice0 results k = take (nat k) results) \<and>
   ((\<forall>q docs n. \<exists>e. co q docs n = Inl e) \<and>
    hybridSearch st question (topK cfg) (hybridSearchAlpha cfg) = Inr found \<and>
    (\<forall>ctx. \<exists>a. invoke ctx question = Inr a) \<longrightarrow>
      (\<exists>a. RAGPipeline_query (live_pipeline st co invoke stream cfg) question
              \<lparr>useReranking = True, useHybridSearch = h, streamResponse = s\<rparr>
            = Inr \<lparr>answer = a, sources = map source_of (js_slice0 found (rerankTopK cfg))\<rparr>))"
proof (intro conjI impI)
  show "\<exists>rs. rerank co query results k = Inr rs"
    by (rule rerank_returns)
  show "\<exists>rs. rerankWithMetadata co query results k = Inr rs"
    by (rule rerankWithMetadata_returns)
next
  assume "\<exists>e. co query (map (\<lambda>r. pageContent (document r)) results)
            (min k (int (length results))) = Inl e"
  then show "rerank co query results k = Inr (map Ranked (js_slice0 results k))"
    using rerank_fallback by blast
next
  assume "(\<exists>e. co query (map with_title results) (min k (int (length results))) = Inl e) \<and>
    (\<exists>e. co query (map (\<lambda>r. pageContent (document r)) results)
            (min k (int (length results))) = Inl e)"
  then show "rerankWithMetadata co query results k = Inr (map Ranked (js_slice0 results k))"
    using rerankWithMetadata_fallback by blast
next
  assume "0 \<le> k"
  then show "js_slice0 results k = take (nat k) results"
    by (rule js_slice0_take)
next
  assume "(\<forall>q docs n. \<exists>e. co q docs n = Inl e) \<and>
    hybridSearch st question (topK cfg) (hybridSearchAlpha cfg) = Inr found \<and>
    (\<forall>ctx. \<exists>a. invoke ctx question = Inr a)"
  then show "\<exists>a. RAGPipeline_query (live_pipeline st co invoke stream cfg) question
              \<lparr>useReranking = True, useHybridSearch = h, streamResponse = s\<rparr>
            = Inr \<lparr>answer = a, sources = map source_of (js_slice0 found (rerankTopK cfg))\<rparr>"
    using query_with_failing_reranker [of co st question cfg found invoke stream h s]
    by blast
qed

lemmas live_eval = example_live_def live_pipeline_def default_config_def
  example_chain_def example_chain_stream_def failing_cohere_def example_cohere_def

theorem reranker_failure_fallback_witness:
  "rerankWithMetadata failing_cohere ''q''
     [example_titled ''T'' ''a'', example_result ''b'' 1, example_result ''c'' 1] 2
     = Inr [Ranked (example_titled ''T'' ''a''), Ranked (example_result ''b'' 1)] \<and>
   (\<exists>found a. hybridSearch example_store ''api speed'' 10 (1 / 2) = Inr found \<and>
      map (\<lambda>r. pageContent (document r)) found = [''slow db'', ''fast api'', ''api docs''] \<and>
      RAGPipeline_query (example_live failing_cohere) ''api speed''
          \<lparr>useReranking = True, useHybridSearch = True, streamResponse = False\<rparr>
        = Inr \<lparr>answer = a, sources = map source_of (take 3 found)\<rparr>)"
proof -
  let ?rs = "[example_titled ''T'' ''a'', example_result ''b'' 1, example_result ''c'' 1]"
  note inst = reranker_failure_fallback
    [of failing_cohere _ _ _ example_store "''api speed''" default_config _
        example_chain example_chain_stream True False]
  have "rerankWithMetadata failing_cohere ''q'' ?rs 2 = Inr (map Ranked (js_slice0 ?rs 2))"
    using inst [of "''q''" ?rs 2] by (simp add: failing_cohere_def)
  then have first: "rerankWithMetadata failing_cohere ''q'' ?rs 2
     = Inr [Ranked (example_titled ''T'' ''a''), Ranked (example_result ''b'' 1)]"
    by (simp add: js_slice0_def)
  obtain found where found: "hybridSearch example_store ''api speed'' 10 (1 / 2) = Inr found"
    and docs: "map (\<lambda>r. pageContent (document r)) found = [''slow db'', ''fast api'', ''api docs'']"
    by (simp add: store_eval)
  from docs have len: "length found = 3"
    by (metis length_map length_Cons list.size(3) numeral_3_eq_3)
  from inst [of "''q''" ?rs 2 found] found
  obtain a where "RAGPipeline_query (example_live failing_cohere) ''api speed''
          \<lparr>useReranking = True, useHybridSearch = True, streamResponse = False\<rparr>
        = Inr \<lparr>answer = a, sources = map source_of (js_slice0 found 3)\<rparr>"
    by (auto simp: live_eval)
  then have "RAGPipeline_query (example_live failing_cohere) ''api speed''
          \<lparr>useReranking = True, useHybridSearch = True, streamResponse = False\<rparr>
        = Inr \<lparr>answer = a, sources = map source_of (take 3 found)\<rparr>"
    by (simp add: js_slice0_def)
  with first found docs show ?thesis
    by auto
qed

theorem rerankWithMetadata_retries_before_fallback:
  "example_cohere ''q'' (map with_title [example_titled ''T'' ''a'', example_result ''b'' 1]) 2
     = Inl (Thrown ''rejected'') \<and>
   rerankWithMetadata example_cohere ''q'' [example_titled ''T'' ''a'', example_result ''b'' 1] 2
     = Inr [Ranked ((example_result ''b'' 1)\<lparr>score := 9 / 10\<rparr>),
            Ranked ((example_titled ''T'' ''a'')\<lparr>score := 1 / 10\<rparr>)] \<and>
   rerankWithMetadata example_cohere ''q'' [example_titled ''T'' ''a'', example_result ''b'' 1] 2
     \<noteq> Inr (map Ranked (take 2 [example_titled ''T'' ''a'', example_result ''b'' 1]))"
  by (simp add: rerankWithMetadata_def rerank_def try_catch_def and_then_def example_cohere_def
        with_title_def example_titled_def example_result_def example_doc_def restore_def)

section \<open>RAGPipeline: properties\<close>

lemma retrieve_ignores_flag: "retrieve p question False = retrieve p question True"
  by (simp add: retrieve_def)

lemma query_ignores_flag:
  "RAGPipeline_query p question (options\<lparr>useHybridSearch := False\<rparr>)
     = RAGPipeline_query p question (options\<lparr>useHybridSearch := True\<rparr>)"
  by (simp add: RAGPipeline_query_def retrieve_ignores_flag)

lemma streamQuery_ignores_flag:
  "RAGPipeline_streamQuery p question (options\<lparr>useHybridSearch := False\<rparr>)
     = RAGPipeline_streamQuery p question (options\<lparr>useHybridSearch := True\<rparr>)"
  by (simp add: RAGPipeline_streamQuery_def retrieve_ignores_flag Let_def split: sum.splits)

text \<open>
  Claim C3, on the code. Both branches of the retrieval stage call \<open>hybridSearch\<close>, so
  \<open>query\<close> answers the same with \<open>useHybridSearch\<close> false as with it true. On the example
  store the vector search finds ``fast api'' (0.9) and ``slow db'' (0.5) and the keyword
  search finds ``slow db'' and ``api docs'': the configuration ``Vector Search Only''
  returns the fused ranking, with the keyword-only hit in it and ``slow db'' first.
\<close>

theorem vector_only_is_hybrid:
  "RAGPipeline_query p question (options\<lparr>useHybridSearch := False\<rparr>)
     = RAGPipeline_query p question (options\<lparr>useHybridSearch := True\<rparr>) \<and>
   (\<exists>r. RAGPipeline_query (example_live failing_cohere) ''api speed''
            \<lparr>useReranking = False, useHybridSearch = False, streamResponse = False\<rparr> = Inr r \<and>
        map src_content (sources r) = [''slow db'', ''fast api'', ''api docs''] \<and>
        map src_relevanceScore (sources r) = [123 / 7564, 1 / 122, 1 / 124]) \<and>
   vectorSearch example_store [1] 20
     = Inr [\<lparr>document = example_doc ''fast api'', score = 9 / 10,
              vectorScore = Some (9 / 10), keywordScore = None\<rparr>,
            \<lparr>document = example_doc ''slow db'', score = 1 / 2,
              vectorScore = Some (1 / 2), keywordScore = None\<rparr>]"
proof (intro conjI)
  show "RAGPipeline_query p question (options\<lparr>useHybridSearch := False\<rparr>)
     = RAGPipeline_query p question (options\<lparr>useHybridSearch := True\<rparr>)"
    by (rule query_ignores_flag)
  show "\<exists>r. RAGPipeline_query (example_live failing_cohere) ''api speed''
            \<lparr>useReranking = False, useHybridSearch = False, streamResponse = False\<rparr> = Inr r \<and>
        map src_content (sources r) = [''slow db'', ''fast api'', ''api docs''] \<and>
        map src_relevanceScore (sources r) = [123 / 7564, 1 / 122, 1 / 124]"
    by (simp add: RAGPipeline_query_def retrieve_def live_eval store_eval
          RAGPipeline_generateAnswer_def source_of_def)
  show "vectorSearch example_store [1] 20
     = Inr [\<lparr>document = example_doc ''fast api'', score = 9 / 10,
              vectorScore = Some (9 / 10), keywordScore = None\<rparr>,
            \<lparr>document = example_doc ''slow db'', score = 1 / 2,
              vectorScore = Some (1 / 2), keywordScore = None\<rparr>]"
    by (simp add: vectorSearch_def example_store_def and_then_def or_zero_def example_doc_def)
qed

lemma response_0_not_fixed: "response_0 q \<noteq> no_results_answer"
  by (simp add: response_0_def no_results_answer_def)

lemma response_1_not_fixed: "response_1 q \<noteq> no_results_answer"
  by (simp add: response_1_def no_results_answer_def)

lemma response_2_not_fixed: "response_2 q \<noteq> no_results_answer"
  by (simp add: response_2_def no_results_answer_def)

lemma MockLLM_not_fixed: "MockLLM_generateAnswer q ctx \<noteq> no_results_answer"
proof -
  have "MockLLM_generateAnswer q ctx \<in> set (responses q)"
    unfolding MockLLM_generateAnswer_def Let_def
    by (rule nth_mem) (simp add: responses_def)
  then show ?thesis
    using response_0_not_fixed response_1_not_fixed response_2_not_fixed
    by (auto simp: responses_def)
qed

lemma build_context_Nil [simp]: "build_context [] = []"
  by (simp add: build_context_def)

lemma generateAnswer_no_results:
  "RAGPipeline_generateAnswer p question [] stream = Inr no_results_answer"
  by (simp add: RAGPipeline_generateAnswer_def)

lemma query_no_results:
  assumes "vectorStore_hybridSearch p question (topK (config p)) = Inr []"
  shows "RAGPipeline_query p question options = Inr \<lparr>answer = no_results_answer, sources = []\<rparr>"
  using assms
  by (simp add: RAGPipeline_query_def retrieve_def and_then_def generateAnswer_no_results)

lemma mock_empty_store [simp]: "MockVectorStore_hybridSearch [] q limit = []"
  by (simp add: MockVectorStore_hybridSearch_def)

text \<open>
  Claim C4, on the code. On an empty mock store retrieval returns no candidate. The
  single-shot \<open>query\<close> then answers with the fixed text and no sources. \<open>streamQuery\<close>
  has no such test: it goes on to the generation stage, calls the mock model with an
  empty context and yields its canned answer fragment by fragment, a text that is never
  the fixed one.
\<close>

theorem streamQuery_generates_without_results:
  "RAGPipeline_query (mock_pipeline [] rx cfg) question options
     = Inr \<lparr>answer = no_results_answer, sources = []\<rparr> \<and>
   RAGPipeline_streamQuery (mock_pipeline [] rx cfg) question options
     = ([plain_event Retrieval, count_event Retrieval 0, plain_event Generation]
          @ map chunk_event (MockLLM_streamAnswer question [])
          @ [complete_event []], None) \<and>
   concat (MockLLM_streamAnswer question []) = MockLLM_generateAnswer question [] \<and>
   MockLLM_generateAnswer question [] \<noteq> no_results_answer"
proof (intro conjI)
  show "RAGPipeline_query (mock_pipeline [] rx cfg) question options
     = Inr \<lparr>answer = no_results_answer, sources = []\<rparr>"
    by (rule query_no_results) (simp add: mock_pipeline_def)
  show "RAGPipeline_streamQuery (mock_pipeline [] rx cfg) question options
     = ([plain_event Retrieval, count_event Retrieval 0, plain_event Generation]
          @ map chunk_event (MockLLM_streamAnswer question [])
          @ [complete_event []], None)"
    by (simp add: RAGPipeline_streamQuery_def retrieve_def mock_pipeline_def
          stream_generation_def)
  show "concat (MockLLM_streamAnswer question []) = MockLLM_generateAnswer question []"
    unfolding MockLLM_streamAnswer_def Let_def
    by (simp only: concat_fragments [OF split_on_not_Nil] join_split_on)
  show "MockLLM_generateAnswer question [] \<noteq> no_results_answer"
    by (rule MockLLM_not_fixed)
qed

text \<open>
  Claim C7, as the code has it. The empty question is rejected by the HTTP handlers,
  which answer 400 ``Question is required'' whatever the pipeline is, before they call
  it. \<open>RAGPipeline.query\<close> itself has no test of the question: on the empty string it
  runs retrieval and generation like on any other.
\<close>

theorem empty_question_rejected_by_handlers:
  "api_query p (req\<lparr>req_question := Some []\<rparr>) = bad_request \<and>
   api_query p (req\<lparr>req_question := None\<rparr>) = bad_request \<and>
   api_query_stream p (req\<lparr>req_question := Some []\<rparr>) = Inl bad_request \<and>
   api_query_stream p (req\<lparr>req_question := None\<rparr>) = Inl bad_request \<and>
   api_compare p (req\<lparr>req_question := Some []\<rparr>) = bad_request \<and>
   api_compare p (req\<lparr>req_question := None\<rparr>) = bad_request \<and>
   http_status bad_request = 400"
  by (simp add: api_query_def api_query_stream_def api_compare_def no_question_def
        bad_request_def)

theorem query_runs_on_empty_question:
  "\<exists>r. RAGPipeline_query (mock_pipeline [example_doc ''fast api''] example_regex default_config) []
          \<lparr>useReranking = False, useHybridSearch = True, streamResponse = False\<rparr> = Inr r \<and>
       map src_content (sources r) = [''fast api''] \<and>
       answer r = response_0 []"
  by (simp add: RAGPipeline_query_def retrieve_def mock_pipeline_def default_config_def
        and_then_def MockVectorStore_hybridSearch_def word_score_def toLowerCase_def
        example_doc_def js_slice0_def RAGPipeline_generateAnswer_def source_of_def
        MockLLM_generateAnswer_def MockLLM_hashCode_def responses_def)

section \<open>Mock pipeline: properties\<close>

lemma rescore_length:
  "rescore rx qw rs = Inr out \<Longrightarrow> length out = length rs"
  by (induction rs arbitrary: out) (auto simp: and_then_def split: sum.splits)

lemma js_slice0_not_Nil: "xs \<noteq> [] \<Longrightarrow> 0 < e \<Longrightarrow> js_slice0 xs e \<noteq> []"
  by (simp add: js_slice0_def)

lemma MockReranker_not_Nil:
  assumes "MockReranker_rerankWithMetadata rx q found k = Inr out"
    and "found \<noteq> []" and "0 < k"
  shows "out \<noteq> []"
proof -
  from assms(1) obtain reranked where r: "rescore rx (split_on (CHR '' '') (toLowerCase q)) found = Inr reranked"
    and out: "out = js_slice0 (sort_key (\<lambda>r. - score r) reranked) k"
    by (auto simp: MockReranker_rerankWithMetadata_def MockReranker_rerank_def Let_def
          and_then_def split: sum.splits)
  from r assms(2) have "length (sort_key (\<lambda>r. - score r) reranked) \<noteq> 0"
    by (simp add: rescore_length)
  then have "sort_key (\<lambda>r. - score r) reranked \<noteq> []"
    by (simp del: length_sort)
  with out assms(3) show ?thesis
    by (simp add: js_slice0_not_Nil)
qed

lemma mock_generateAnswer:
  "rs \<noteq> [] \<Longrightarrow>
   RAGPipeline_generateAnswer (mock_pipeline documents rx cfg) q (map Ranked rs) s
     = Inr (MockLLM_generateAnswer q (build_context rs))"
  by (simp add: RAGPipeline_generateAnswer_def mock_pipeline_def and_then_def)

lemma mock_query_answers:
  assumes docs: "documents \<noteq> []"
    and k: "useReranking options \<longrightarrow> 0 < rerankTopK cfg"
    and res: "RAGPipeline_query (mock_pipeline documents rx cfg) q options = Inr r"
  shows "answer r \<noteq> no_results_answer \<and> sources r \<noteq> []"
proof -
  let ?p = "mock_pipeline documents rx cfg"
  let ?found = "MockVectorStore_hybridSearch documents q (topK cfg)"
  have found: "?found \<noteq> []"
    using docs by (rule MockVectorStore_nonempty)
  have retrieve: "retrieve ?p q (useHybridSearch options) = Inr ?found"
    by (simp add: retrieve_def mock_pipeline_def)
  obtain rs where rs: "rs \<noteq> []"
    and stage: "(if useReranking options \<and> length ?found > 0
                 then reranker_rerankWithMetadata ?p q ?found (rerankTopK (config ?p))
                 else Inr (map Ranked ?found)) = Inr (map Ranked rs)"
  proof (cases "useReranking options")
    case False
    with found that [of ?found] show thesis by simp
  next
    case True
    with res retrieve found obtain out
      where out: "MockReranker_rerankWithMetadata rx q ?found (rerankTopK cfg) = Inr out"
      by (auto simp: RAGPipeline_query_def and_then_def mock_pipeline_def split: sum.splits)
    with found k True have "out \<noteq> []"
      using MockReranker_not_Nil by blast
    with out True found that [of out] show thesis
      by (simp add: mock_pipeline_def and_then_def)
  qed
  from res retrieve stage rs have "r = \<lparr>answer = MockLLM_generateAnswer q (build_context rs),
                                        sources = map source_of rs\<rparr>"
    by (simp add: RAGPipeline_query_def and_then_def mock_generateAnswer)
  with rs show ?thesis
    by (simp add: MockLLM_not_fixed)
qed

lemma fallback_documents: "map document (fallback documents) = take 3 documents"
  by (simp add: fallback_def comp_def case_prod_unfold)

text \<open>
  Claim C10, as the code has it. On a store with at least one document \<open>hybridSearch\<close>
  of the mock store never returns the empty list, whatever the query and the limit.
  When no document contains a word of the query it returns the fallback: the first
  three documents at most, in their order, with the scores 0.5, 0.4, 0.3. So in mock
  mode retrieval over such a store never comes back empty, and \<open>query\<close> never gives
  the no-results answer as long as the reranking stage, when enabled, keeps at least
  one candidate (\<open>rerankTopK\<close> positive); the mock reranker cuts the list to
  \<open>slice(0, rerankTopK)\<close>, which is empty for \<open>rerankTopK\<close> 0.
\<close>

theorem MockVectorStore_never_empty:
  "(documents \<noteq> [] \<longrightarrow> MockVectorStore_hybridSearch documents query limit \<noteq> []) \<and>
   (documents \<noteq> [] \<and>
    (\<forall>doc \<in> set documents. \<forall>word \<in> set (split_on (CHR '' '') (toLowerCase query)).
        \<not> str_includes (toLowerCase (pageContent doc)) word) \<longrightarrow>
      MockVectorStore_hybridSearch documents query limit = fallback documents) \<and>
   map document (fallback documents) = take 3 documents \<and>
   map score (fallback documents) = take (length documents) [1 / 2, 2 / 5, 3 / 10] \<and>
   (documents \<noteq> [] \<and> (useReranking options \<longrightarrow> 0 < rerankTopK cfg) \<longrightarrow>
      (\<forall>r. RAGPipeline_query (mock_pipeline documents rx cfg) question options = Inr r \<longrightarrow>
            answer r \<noteq> no_results_answer \<and> sources r \<noteq> []))"
proof (intro conjI impI allI)
  assume "documents \<noteq> []"
  then show "MockVectorStore_hybridSearch documents query limit \<noteq> []"
    by (rule MockVectorStore_nonempty)
next
  assume "documents \<noteq> [] \<and>
    (\<forall>doc \<in> set documents. \<forall>word \<in> set (split_on (CHR '' '') (toLowerCase query)).
        \<not> str_includes (toLowerCase (pageContent doc)) word)"
  then show "MockVectorStore_hybridSearch documents query limit = fallback documents"
    by (simp add: MockVectorStore_fallback)
next
  show "map document (fallback documents) = take 3 documents"
    by (rule fallback_documents)
  show "map score (fallback documents) = take (length documents) [1 / 2, 2 / 5, 3 / 10]"
    by (rule fallback_scores)
next
  fix r
  assume "documents \<noteq> [] \<and> (useReranking options \<longrightarrow> 0 < rerankTopK cfg)"
    and "RAGPipeline_query (mock_pipeline documents rx cfg) question options = Inr r"
  then show "answer r \<noteq> no_results_answer" and "sources r \<noteq> []"
    using mock_query_answers [of documents options cfg rx question r] by simp_all
qed

theorem MockVectorStore_never_empty_witness:
  "MockVectorStore_hybridSearch [example_doc ''fast api'', example_doc ''slow db''] ''zzz'' 10
     = [\<lparr>document = example_doc ''fast api'', score = 1 / 2,
          vectorScore = Some (1 / 2), keywordScore = None\<rparr>,
        \<lparr>document = example_doc ''slow db'', score = 2 / 5,
          vectorScore = Some (2 / 5), keywordScore = None\<rparr>] \<and>
   (\<exists>r. RAGPipeline_query
           (mock_pipeline [example_doc ''fast api'', example_doc ''slow db''] example_regex default_config)
           ''zzz'' \<lparr>useReranking = True, useHybridSearch = True, streamResponse = False\<rparr> = Inr r \<and>
        answer r \<noteq> no_results_answer \<and> length (sources r) = 2)"
proof -
  let ?docs = "[example_doc ''fast api'', example_doc ''slow db'']"
  let ?opts = "\<lparr>useReranking = True, useHybridSearch = True, streamResponse = False\<rparr>"
  note inst = MockVectorStore_never_empty
    [of ?docs "''zzz''" 10 ?opts default_config example_regex "''zzz''"]
  have "MockVectorStore_hybridSearch ?docs ''zzz'' 10 = fallback ?docs"
    using inst by (simp add: toLowerCase_def lower_char_def example_doc_def)
  then have first: "MockVectorStore_hybridSearch ?docs ''zzz'' 10
     = [\<lparr>document = example_doc ''fast api'', score = 1 / 2,
          vectorScore = Some (1 / 2), keywordScore = None\<rparr>,
        \<lparr>document = example_doc ''slow db'', score = 2 / 5,
          vectorScore = Some (2 / 5), keywordScore = None\<rparr>]"
    by (simp add: fallback_def)
  obtain r where r: "RAGPipeline_query (mock_pipeline ?docs example_regex default_config)
           ''zzz'' ?opts = Inr r" and len: "length (sources r) = 2"
    by (simp add: RAGPipeline_query_def retrieve_def mock_pipeline_def default_config_def
          MockVectorStore_hybridSearch_def word_score_def
          and_then_def MockReranker_rerankWithMetadata_def MockReranker_rerank_def
          example_regex_def toLowerCase_def lower_char_def example_doc_def js_slice0_def
          RAGPipeline_generateAnswer_def)
  from inst r have "answer r \<noteq> no_results_answer"
    by (simp add: default_config_def)
  with first r len show ?thesis
    by auto
qed

theorem mock_no_results_when_reranker_keeps_none:
  "RAGPipeline_query
     (mock_pipeline [example_doc ''fast api''] example_regex (default_config\<lparr>rerankTopK := 0\<rparr>))
     ''api'' \<lparr>useReranking = True, useHybridSearch = True, streamResponse = False\<rparr>
     = Inr \<lparr>answer = no_results_answer, sources = []\<rparr>"
  by (simp add: RAGPipeline_query_def retrieve_def mock_pipeline_def default_config_def
        MockVectorStore_hybridSearch_def word_score_def
        and_then_def MockReranker_rerankWithMetadata_def MockReranker_rerank_def
        example_regex_def toLowerCase_def lower_char_def example_doc_def js_slice0_def
        RAGPipeline_generateAnswer_def)

section \<open>Chunking: properties\<close>

lemma chunk_indices:
  assumes "i < length (SemanticChunking_chunk tools sz overlap text md)"
  shows "metadata (SemanticChunking_chunk tools sz overlap text md ! i) ''chunkIndex''
           = Some (JNum (int i))"
  using assms by (simp add: SemanticChunking_chunk_def nth_enumerate_eq)

lemma token_chunk_indices:
  assumes "i < length (TokenBasedChunking_chunk tools sz overlap text md)"
  shows "metadata (TokenBasedChunking_chunk tools sz overlap text md ! i) ''chunkIndex''
           = Some (JNum (int i))"
  using assms by (simp add: TokenBasedChunking_chunk_def nth_enumerate_eq)

lemma base_chunk_indices:
  assumes "i < length (base_chunks tools sz overlap text md)"
  shows "metadata (base_chunks tools sz overlap text md ! i) ''chunkIndex'' = Some (JNum (int i))"
  using assms
  by (cases "detectContentType tools text")
     (simp_all add: base_chunks_def chunk_indices token_chunk_indices)

lemma adaptive_length:
  "length (AdaptiveChunking_chunk tools sz overlap text md)
     = length (base_chunks tools sz overlap text md)"
  by (simp add: AdaptiveChunking_chunk_def base_chunks_def Let_def)

lemma adaptive_nth:
  assumes "i < length (base_chunks tools sz overlap text md)"
  shows "AdaptiveChunking_chunk tools sz overlap text md ! i =
     (base_chunks tools sz overlap text md ! i)
       \<lparr>metadata := (metadata (base_chunks tools sz overlap text md ! i))
          (''contentType'' \<mapsto> JStr (content_type_name (detectContentType tools text)),
           ''hasPrevious'' \<mapsto> JBool (i > 0),
           ''hasNext'' \<mapsto> JBool (int i < int (length (base_chunks tools sz overlap text md)) - 1),
           ''totalChunks'' \<mapsto> JNum (int (length (base_chunks tools sz overlap text md))))\<rparr>"
  using assms
  by (simp add: AdaptiveChunking_chunk_def base_chunks_def [symmetric] Let_def nth_enumerate_eq)

text \<open>
  Claim C8. In the list \<open>AdaptiveChunking.chunk\<close> returns, for every text, the chunk at
  position \<open>i\<close> has \<open>chunkIndex\<close> \<open>i\<close> (so the indices run 0, 1, 2, ... without a gap),
  \<open>totalChunks\<close> is the length of the list, \<open>hasPrevious\<close> is \<open>i > 0\<close> and \<open>hasNext\<close> is
  \<open>i < length - 1\<close>.
\<close>

theorem AdaptiveChunking_ordinals:
  "\<forall>i < length (AdaptiveChunking_chunk tools chunkSize chunkOverlap text md).
     (let chunks = AdaptiveChunking_chunk tools chunkSize chunkOverlap text md;
          m = metadata (chunks ! i)
      in m ''chunkIndex'' = Some (JNum (int i)) \<and>
         m ''totalChunks'' = Some (JNum (int (length chunks))) \<and>
         m ''hasPrevious'' = Some (JBool (0 < i)) \<and>
         m ''hasNext'' = Some (JBool (i < length chunks - 1)))"
proof (intro allI impI)
  fix i
  assume "i < length (AdaptiveChunking_chunk tools chunkSize chunkOverlap text md)"
  then have i: "i < length (base_chunks tools chunkSize chunkOverlap text md)"
    by (simp add: adaptive_length)
  have "(int i < int (length (base_chunks tools chunkSize chunkOverlap text md)) - 1)
          = (i < length (base_chunks tools chunkSize chunkOverlap text md) - 1)"
    by auto
  with i show "let chunks = AdaptiveChunking_chunk tools chunkSize chunkOverlap text md;
          m = metadata (chunks ! i)
      in m ''chunkIndex'' = Some (JNum (int i)) \<and>
         m ''totalChunks'' = Some (JNum (int (length chunks))) \<and>
         m ''hasPrevious'' = Some (JBool (0 < i)) \<and>
         m ''hasNext'' = Some (JBool (i < length chunks - 1))"
    by (simp add: Let_def adaptive_nth adaptive_length base_chunk_indices)
qed

lemma example_chunks_length:
  "length (AdaptiveChunking_chunk example_tools 4 1 ''abcdefghij'' Map.empty) = 3"
  by (simp add: adaptive_length base_chunks_def detectContentType_def example_tools_def
        SemanticChunking_chunk_def)

theorem AdaptiveChunking_ordinals_witness:
  "map pageContent (AdaptiveChunking_chunk example_tools 4 1 ''abcdefghij'' Map.empty)
     = [''abcd'', ''efgh'', ''ij''] \<and>
   (let m = metadata (AdaptiveChunking_chunk example_tools 4 1 ''abcdefghij'' Map.empty ! 2)
    in m ''chunkIndex'' = Some (JNum 2) \<and> m ''totalChunks'' = Some (JNum 3) \<and>
       m ''hasPrevious'' = Some (JBool True) \<and> m ''hasNext'' = Some (JBool False))"
proof -
  have "map pageContent (AdaptiveChunking_chunk example_tools 4 1 ''abcdefghij'' Map.empty)
     = [''abcd'', ''efgh'', ''ij'']"
    by (simp add: AdaptiveChunking_chunk_def detectContentType_def example_tools_def
          SemanticChunking_chunk_def)
  with AdaptiveChunking_ordinals [of example_tools 4 1 "''abcdefghij''" Map.empty]
    example_chunks_length
  show ?thesis
    by (simp add: Let_def)
qed


end
